theory Spec2Isabelle
  imports Main
begin

section \<open>Lua values\<close>

text \<open>
  The plugin runs in Lua 5.4. A value that is not \<open>nil\<close> is a \<open>lua\<close>; a place that may
  hold \<open>nil\<close> (a local, a table field, a return value) is a \<open>lua option\<close> with
  \<open>None\<close> for \<open>nil\<close>, so that no table ever stores \<open>nil\<close>, as in Lua.

  Tables are the two shapes \<open>json.decode\<close> builds and the table constructors of the
  plugin write: a sequence (\<open>LArr\<close>, keys \<open>1..n\<close>) and a string-keyed table
  (\<open>LObj\<close>, read with \<open>map_of\<close>). \<open>LNull\<close> is the sentinel \<open>json.null\<close>, which
  \<open>json.lua\<close> creates with \<open>setmetatable({}, ...)\<close>: an empty table of its own
  identity. \<open>LNonFinite\<close> is a number that is NaN or infinite, and \<open>LFunc\<close> a value of
  type function; \<open>json.encode\<close> raises on both. A finite number is kept as the integer
  it is: a Lua integer (64 bits), or a float without fractional part. Numbers with a
  fractional part are left out; no code below computes with one.
\<close>

datatype lua =
    LBool bool
  | LNum int
  | LNonFinite
  | LStr string
  | LNull
  | LArr "lua list"
  | LObj "(string \<times> lua) list"
  | LFunc

text \<open>\<open>type(v)\<close>\<close>

fun lua_type :: "lua option \<Rightarrow> string" where
  "lua_type None = ''nil''"
| "lua_type (Some (LBool b)) = ''boolean''"
| "lua_type (Some (LNum n)) = ''number''"
| "lua_type (Some LNonFinite) = ''number''"
| "lua_type (Some (LStr s)) = ''string''"
| "lua_type (Some LNull) = ''table''"
| "lua_type (Some (LArr xs)) = ''table''"
| "lua_type (Some (LObj kvs)) = ''table''"
| "lua_type (Some LFunc) = ''function''"

text \<open>A value in a condition: only \<open>nil\<close> and \<open>false\<close> are false.\<close>

fun truthy :: "lua option \<Rightarrow> bool" where
  "truthy None = False"
| "truthy (Some (LBool b)) = b"
| "truthy (Some v) = True"

text \<open>
  \<open>t[k]\<close> and \<open>t.k\<close> for a string key \<open>k\<close>, on a table \<open>t\<close>. A sequence and
  \<open>json.null\<close> have no string keys. The callers test \<open>type(t) == "table"\<close> first.
\<close>

fun field :: "lua \<Rightarrow> string \<Rightarrow> lua option" where
  "field (LObj kvs) k = map_of kvs k"
| "field v k = None"

text \<open>\<open>#t\<close> on a table: the length of a sequence, 0 for a table without integer keys.\<close>

fun len :: "lua \<Rightarrow> nat" where
  "len (LArr xs) = length xs"
| "len v = 0"

text \<open>The elements \<open>ipairs(t)\<close> visits, in order.\<close>

fun ipairs :: "lua \<Rightarrow> lua list" where
  "ipairs (LArr xs) = xs"
| "ipairs v = []"

text \<open>
  An integer in a string concatenation (\<open>"..." .. i\<close>): its decimal digits.
\<close>

definition digit :: "nat \<Rightarrow> char" where
  "digit d = ''0123456789'' ! d"

function tostring_nat :: "nat \<Rightarrow> string" where
  "tostring_nat n = (if n < 10 then [digit n] else tostring_nat (n div 10) @ [digit (n mod 10)])"
  by pat_completeness auto
termination
  by (relation "measure id") auto

declare tostring_nat.simps [simp del]

section \<open>Validator (validator.lua)\<close>

definition allowedMethods :: "string list" where
  "allowedMethods =
    [''document.getInfo'', ''document.getLayers'', ''layer.getProperties'',
     ''layer.getChildren'', ''layer.getBones'', ''bone.getProperties'',
     ''animation.getKeyframes'', ''animation.getFrameState'', ''mesh.getPoints'',
     ''mesh.getShapes'',
     ''bone.setTransform'', ''bone.selectBone'', ''layer.setTransform'',
     ''layer.setVisibility'', ''layer.setOpacity'', ''layer.setName'',
     ''layer.selectLayer'', ''animation.setKeyframe'', ''animation.deleteKeyframe'',
     ''animation.setInterpolation'', ''document.setFrame'',
     ''document.screenshot'',
     ''batch.execute'']"

text \<open>A schema is the list of required parameters, each a name and a type name.\<close>

type_synonym schema = "(string \<times> string) list"

definition paramSchemas :: "(string \<times> schema) list" where
  "paramSchemas =
    [(''document.getInfo'', []),
     (''document.getLayers'', []),
     (''layer.getProperties'', [(''layerId'', ''number'')]),
     (''layer.getChildren'', [(''layerId'', ''number'')]),
     (''layer.getBones'', [(''layerId'', ''number'')]),
     (''bone.getProperties'', [(''layerId'', ''number''), (''boneId'', ''number'')]),
     (''animation.getKeyframes'', [(''layerId'', ''number''), (''channel'', ''string'')]),
     (''animation.getFrameState'', [(''layerId'', ''number''), (''frame'', ''number'')]),
     (''mesh.getPoints'', [(''layerId'', ''number'')]),
     (''mesh.getShapes'', [(''layerId'', ''number'')]),
     (''bone.setTransform'',
        [(''layerId'', ''number''), (''boneId'', ''number''), (''frame'', ''number'')]),
     (''bone.selectBone'', [(''layerId'', ''number''), (''boneId'', ''number'')]),
     (''layer.setTransform'', [(''layerId'', ''number''), (''frame'', ''number'')]),
     (''layer.setVisibility'', [(''layerId'', ''number''), (''visible'', ''boolean'')]),
     (''layer.setOpacity'',
        [(''layerId'', ''number''), (''frame'', ''number''), (''opacity'', ''number'')]),
     (''layer.setName'', [(''layerId'', ''number''), (''name'', ''string'')]),
     (''layer.selectLayer'', [(''layerId'', ''number'')]),
     (''animation.setKeyframe'',
        [(''layerId'', ''number''), (''channel'', ''string''), (''frame'', ''number'')]),
     (''animation.deleteKeyframe'',
        [(''layerId'', ''number''), (''channel'', ''string''), (''frame'', ''number'')]),
     (''animation.setInterpolation'',
        [(''layerId'', ''number''), (''channel'', ''string''), (''frame'', ''number''),
         (''mode'', ''string'')]),
     (''document.setFrame'', [(''frame'', ''number'')]),
     (''document.screenshot'', []),
     (''batch.execute'', [(''operations'', ''table'')])]"

text \<open>\<open>validator.isAllowed\<close>: \<open>allowedMethods[method] == true\<close>.\<close>

definition isAllowed :: "string \<Rightarrow> bool" where
  "isAllowed method = (method \<in> set allowedMethods)"

text \<open>
  The loop of \<open>validator.validateParams\<close> over the schema: the first field that is
  absent, or present with another type, ends it with \<open>false, message\<close> (\<open>Inl\<close>).
\<close>

fun check_fields :: "schema \<Rightarrow> lua \<Rightarrow> string + unit" where
  "check_fields [] params = Inr ()"
| "check_fields ((name, ty) # rest) params =
     (case field params name of
        None \<Rightarrow> Inl (''Missing required parameter: '' @ name)
      | Some v \<Rightarrow>
          if lua_type (Some v) \<noteq> ty
          then Inl (''Invalid parameter type for '' @ [CHR 0x27] @ name @ [CHR 0x27]
                    @ '': expected '' @ ty @ '', got '' @ lua_type (Some v))
          else check_fields rest params)"

text \<open>\<open>validator.validateParams\<close>: \<open>true, nil\<close> is \<open>Inr ()\<close>, \<open>false, message\<close> is \<open>Inl message\<close>.\<close>

definition validateParams :: "string \<Rightarrow> lua option \<Rightarrow> string + unit" where
  "validateParams method params =
     (case map_of paramSchemas method of
        None \<Rightarrow> Inl (''Unknown method: '' @ method)
      | Some schema \<Rightarrow>
          if length schema = 0 then Inr ()
          else (case params of
                  None \<Rightarrow> Inl ''Missing params: expected a table of parameters''
                | Some p \<Rightarrow>
                    if lua_type (Some p) \<noteq> ''table''
                    then Inl ''Missing params: expected a table of parameters''
                    else check_fields schema p))"

text \<open>A declared field is satisfied when it is present with the declared type.\<close>

definition field_ok :: "lua \<Rightarrow> string \<times> string \<Rightarrow> bool" where
  "field_ok params f = (case field params (fst f) of None \<Rightarrow> False | Some v \<Rightarrow> lua_type (Some v) = snd f)"

section \<open>JSON text (json.lua)\<close>

text \<open>
  A JSON text is kept as the value it denotes: \<open>Encoded w\<close> stands for the text that a
  JSON reader with double-precision numbers (\<open>JSON.parse\<close> of the bridge, \<open>json.decode\<close>
  of the plugin) reads as \<open>w\<close>. The decoder is a parameter \<open>dec\<close> of the functions that
  call it, with \<open>dec s = None\<close> when \<open>pcall(json.decode, s)\<close> fails.
\<close>

datatype encoded = Encoded lua

text \<open>
  When \<open>json.encode\<close> raises: \<open>encode_number\<close> on NaN and the infinities, and
  \<open>encode_value\<close> on a value that is neither \<open>json.null\<close>, a string, a number, a
  boolean, \<open>nil\<close> nor a table.
\<close>

fun encodable :: "lua \<Rightarrow> bool" where
  "encodable (LBool b) = True"
| "encodable (LNum n) = True"
| "encodable LNonFinite = False"
| "encodable (LStr s) = True"
| "encodable LNull = True"
| "encodable (LArr xs) = list_all encodable xs"
| "encodable (LObj kvs) = list_all (\<lambda>kv. encodable (snd kv)) kvs"
| "encodable LFunc = False"

text \<open>The number of binary digits of \<open>n\<close>.\<close>

fun bitlen :: "nat \<Rightarrow> nat" where
  "bitlen n = (if n = 0 then 0 else Suc (bitlen (n div 2)))"

declare bitlen.simps [simp del]

text \<open>
  The conversion of a Lua integer to a float, which \<open>string.format\<close> does to its
  argument for \<open>%.17g\<close>: the nearest number with 53 binary digits, the even one of two
  that are as near. \<open>e\<close> is the number of digits that do not fit.
\<close>

definition to_double :: "int \<Rightarrow> int" where
  "to_double n =
     (let a = nat \<bar>n\<bar>;
          e = bitlen a - 53;
          q = a div 2 ^ e;
          r = a mod 2 ^ e;
          up = (2 * r > 2 ^ e \<or> (2 * r = 2 ^ e \<and> odd q))
      in sgn n * int ((if up then q + 1 else q) * 2 ^ e))"

text \<open>
  \<open>encode_number(val)\<close> for a finite \<open>val\<close> without fractional part: the number that
  the digits written denote. Below \<open>2^53\<close> in magnitude \<open>%.0f\<close> writes every digit of
  \<open>val\<close>. From \<open>2^53\<close> on, \<open>%.17g\<close> writes the float that \<open>val\<close> converts to, with
  17 significant digits, which a reader with double-precision numbers reads as that
  float again.
\<close>

definition encode_number :: "int \<Rightarrow> int" where
  "encode_number val = (if \<bar>val\<bar> < 2 ^ 53 then val else to_double val)"

text \<open>
  \<open>encode_value(v)\<close> for an encodable \<open>v\<close>: the value that the text returned denotes.
  \<open>encode_string\<close> escapes the control characters, the quote and the backslash, so
  that the text denotes the string itself. A table without keys passes \<open>is_array\<close>
  and is written \<open>[]\<close>, whether decoded from \<open>{}\<close> or from \<open>[]\<close> (no table of the
  plugin carries the marker of \<open>json.object\<close>); a table with string keys is written as
  an object, its members sorted by key, which are here left in their order.
\<close>

fun encode_value :: "lua \<Rightarrow> lua" where
  "encode_value (LNum n) = LNum (encode_number n)"
| "encode_value (LArr xs) = LArr (map encode_value xs)"
| "encode_value (LObj kvs) =
     (if kvs = [] then LArr [] else LObj (map (\<lambda>kv. (fst kv, encode_value (snd kv))) kvs))"
| "encode_value v = v"

text \<open>
  \<open>json.encode\<close>: \<open>Inl\<close> is the error it raises. The message of the real error
  names the offending type and a source position; only its prefix is kept.
\<close>

definition json_encode :: "lua \<Rightarrow> string + encoded" where
  "json_encode v =
     (if encodable v then Inr (Encoded (encode_value v)) else Inl ''json.encode: cannot encode value'')"

section \<open>Protocol (protocol.lua)\<close>

definition PARSE_ERROR :: int where "PARSE_ERROR = - 32700"
definition INVALID_REQUEST :: int where "INVALID_REQUEST = - 32600"
definition METHOD_NOT_FOUND :: int where "METHOD_NOT_FOUND = - 32601"
definition INVALID_PARAMS :: int where "INVALID_PARAMS = - 32602"
definition INTERNAL_ERROR :: int where "INTERNAL_ERROR = - 32603"

text \<open>
  \<open>protocol.parseRequest\<close> returns the decoded table, or \<open>nil, message\<close> (\<open>Inl\<close>).
  The model returns the three fields of the decoded table that \<open>processRequest\<close>
  reads: \<open>id\<close> (not \<open>nil\<close>), \<open>method\<close> (a string, not empty) and \<open>params\<close>. The
  file content it is given is always a string, so the test
  \<open>type(jsonStr) ~= 'string'\<close> is left to the type.
\<close>

record request =
  req_id :: lua
  req_method :: string
  req_params :: "lua option"

definition parseRequest :: "(string \<Rightarrow> lua option) \<Rightarrow> string \<Rightarrow> string + request" where
  "parseRequest dec jsonStr =
     (if jsonStr = '''' then Inl ''Invalid input: expected non-empty JSON string''
      else (case dec jsonStr of
        None \<Rightarrow> Inl ''Parse error: malformed JSON''
      | Some decoded \<Rightarrow>
          if lua_type (Some decoded) \<noteq> ''table'' then Inl ''Parse error: malformed JSON''
          else if field decoded ''jsonrpc'' \<noteq> Some (LStr ''2.0'')
          then Inl (''Invalid request: missing or incorrect jsonrpc version (must be ''
                    @ [CHR 0x22] @ ''2.0'' @ [CHR 0x22] @ '')'')
          else (case field decoded ''id'' of
            None \<Rightarrow> Inl ''Invalid request: missing id field''
          | Some id' \<Rightarrow>
             (case field decoded ''method'' of
                Some (LStr m) \<Rightarrow>
                  if m = '''' then Inl ''Invalid request: missing or invalid method field''
                  else Inr \<lparr>req_id = id', req_method = m, req_params = field decoded ''params''\<rparr>
              | _ \<Rightarrow> Inl ''Invalid request: missing or invalid method field''))))"

text \<open>A table constructor entry \<open>k = v\<close>: nothing is stored when \<open>v\<close> is \<open>nil\<close>.\<close>

fun entry :: "string \<Rightarrow> lua option \<Rightarrow> (string \<times> lua) list" where
  "entry k None = []"
| "entry k (Some v) = [(k, v)]"

text \<open>\<open>protocol.createResponse\<close> and \<open>protocol.createError\<close>; \<open>Inl\<close> when \<open>json.encode\<close> raises.\<close>

definition createResponse :: "lua option \<Rightarrow> lua option \<Rightarrow> string + encoded" where
  "createResponse id' result =
     json_encode (LObj ([(''jsonrpc'', LStr ''2.0'')] @ entry ''id'' id' @ entry ''result'' result))"

definition createError :: "lua option \<Rightarrow> int \<Rightarrow> lua option \<Rightarrow> lua option \<Rightarrow> string + encoded" where
  "createError id' code message data =
     (let errorObj = LObj ([(''code'', LNum code)] @ entry ''message'' message @ entry ''data'' data)
      in json_encode (LObj ([(''jsonrpc'', LStr ''2.0'')] @ entry ''id'' id' @ [(''error'', errorObj)])))"

section \<open>Handlers and the machine they run on\<close>

text \<open>
  A tool handler is opaque: called as \<open>handler(moho, params)\<close> under \<open>pcall\<close>, it
  reads and changes the application state \<open>'w\<close> and either raises (\<open>Raises\<close>, with
  \<open>tostring\<close> of the error value) or returns two values \<open>result, err\<close>.
\<close>

datatype houtcome = Raises string | Returns "lua option" "lua option"

type_synonym 'w tool = "'w \<Rightarrow> lua \<Rightarrow> houtcome \<times> 'w"

text \<open>
  The machine is the application state together with a log of the handler calls made
  so far (method and parameters, in order). The log is not in the source; it records
  each \<open>pcall(handler, moho, params)\<close>, so that "no handler was called" can be said.
\<close>

record 'w machine =
  world :: 'w
  calls :: "(string \<times> lua) list"

text \<open>\<open>pcall(handler, moho, params)\<close> for a tool registered under \<open>method\<close>.\<close>

definition pcall_tool :: "'w tool \<Rightarrow> string \<Rightarrow> lua \<Rightarrow> 'w machine \<Rightarrow> houtcome \<times> 'w machine" where
  "pcall_tool handler method params m =
     (let (out, w') = handler (world m) params
      in (out, \<lparr>world = w', calls = calls m @ [(method, params)]\<rparr>))"

section \<open>Batch execution (tools/batch.lua)\<close>

definition MAX_OPERATIONS :: nat where
  "MAX_OPERATIONS = 50"

definition disallowedInBatch :: "string list" where
  "disallowedInBatch = [''document.screenshot'', ''batch.execute'']"

text \<open>The locals of the loop of \<open>batch.execute\<close>, and the machine.\<close>

record 'w bstate =
  results :: "lua list"
  succeeded :: nat
  failed :: nat
  executed :: nat
  stoppedEarly :: bool
  mach :: "'w machine"

text \<open>The table \<open>{ success = false, index = i, error = { code = c, message = msg } }\<close>.\<close>

definition failure :: "nat \<Rightarrow> int \<Rightarrow> lua option \<Rightarrow> lua" where
  "failure i code message =
     LObj [(''success'', LBool False), (''index'', LNum (int i)),
           (''error'', LObj ([(''code'', LNum code)] @ entry ''message'' message))]"

text \<open>The table \<open>{ success = true, index = i, result = result }\<close>.\<close>

definition success :: "nat \<Rightarrow> lua option \<Rightarrow> lua" where
  "success i result =
     LObj ([(''success'', LBool True), (''index'', LNum (int i))] @ entry ''result'' result)"

text \<open>
  The five rejections before the handler and the two failures after it all do the same
  to the locals: store the failure at \<open>results[i]\<close>, add one to \<open>failed\<close> and to
  \<open>executed\<close>, and set \<open>stoppedEarly\<close> when \<open>stopOnError\<close> holds.
\<close>

definition op_failed :: "bool \<Rightarrow> nat \<Rightarrow> int \<Rightarrow> lua option \<Rightarrow> 'w bstate \<Rightarrow> 'w bstate" where
  "op_failed stopOnError i code message st =
     st\<lparr>results := results st @ [failure i code message],
        failed := failed st + 1,
        executed := executed st + 1,
        stoppedEarly := (if stopOnError then True else stoppedEarly st)\<rparr>"

text \<open>\<open>op.params or {}\<close>\<close>

definition params_or_empty :: "lua option \<Rightarrow> lua" where
  "params_or_empty p = (case p of None \<Rightarrow> LObj [] | Some v \<Rightarrow> if truthy (Some v) then v else LObj [])"

text \<open>
  The body of the loop, for the operation \<open>op\<close> at index \<open>i\<close>. The handler of a
  method that passed the denylist is the tool registered under it: \<open>batch.execute\<close>
  itself, the one other entry of the registry, is on the denylist.
\<close>

definition batch_op :: "(string \<rightharpoonup> 'w tool) \<Rightarrow> bool \<Rightarrow> nat \<Rightarrow> lua \<Rightarrow> 'w bstate \<Rightarrow> 'w bstate" where
  "batch_op tools stopOnError i op st =
     (if stoppedEarly st
      then st\<lparr>results := results st @ [failure i (- 32000) (Some (LStr ''Skipped (stopOnError)''))]\<rparr>
      else case (if lua_type (Some op) = ''table'' then field op ''method'' else None) of
        Some (LStr method) \<Rightarrow>
          (let opParams = params_or_empty (field op ''params'')
           in if method \<in> set disallowedInBatch
              then op_failed stopOnError i (- 32601)
                     (Some (LStr (''Method not allowed in batch: '' @ method))) st
              else if \<not> isAllowed method
              then op_failed stopOnError i (- 32601)
                     (Some (LStr (''Method not found: '' @ method))) st
              else case validateParams method (Some opParams) of
                Inl validErr \<Rightarrow> op_failed stopOnError i (- 32602) (Some (LStr validErr)) st
              | Inr _ \<Rightarrow>
                 (case tools method of
                    None \<Rightarrow> op_failed stopOnError i (- 32601)
                              (Some (LStr (''No handler registered for: '' @ method))) st
                  | Some handler \<Rightarrow>
                     (case pcall_tool handler method opParams (mach st) of
                        (Raises e, m') \<Rightarrow>
                          op_failed stopOnError i (- 32603)
                            (Some (LStr (''Handler error: '' @ e))) (st\<lparr>mach := m'\<rparr>)
                      | (Returns result handlerErr, m') \<Rightarrow>
                          if result = None \<and> truthy handlerErr
                          then op_failed stopOnError i (- 32603) handlerErr (st\<lparr>mach := m'\<rparr>)
                          else st\<lparr>results := results st @ [success i result],
                                  succeeded := succeeded st + 1,
                                  executed := executed st + 1,
                                  mach := m'\<rparr>)))
      | _ \<Rightarrow> op_failed stopOnError i (- 32600)
               (Some (LStr (''Invalid operation at index '' @ tostring_nat i
                            @ '': must have a string '' @ [CHR 0x27] @ ''method'' @ [CHR 0x27]))) st)"

text \<open>\<open>for i, op in ipairs(operations)\<close>, from index \<open>i\<close> on.\<close>

fun batch_loop :: "(string \<rightharpoonup> 'w tool) \<Rightarrow> bool \<Rightarrow> nat \<Rightarrow> lua list \<Rightarrow> 'w bstate \<Rightarrow> 'w bstate" where
  "batch_loop tools stopOnError i [] st = st"
| "batch_loop tools stopOnError i (op # ops) st =
     batch_loop tools stopOnError (Suc i) ops (batch_op tools stopOnError i op st)"

text \<open>The locals before the loop.\<close>

definition batch_init :: "'w machine \<Rightarrow> 'w bstate" where
  "batch_init m =
     \<lparr>results = [], succeeded = 0, failed = 0, executed = 0, stoppedEarly = False, mach = m\<rparr>"

text \<open>The table \<open>batch.execute\<close> returns after the loop.\<close>

definition batch_reply :: "nat \<Rightarrow> 'w bstate \<Rightarrow> lua" where
  "batch_reply n st =
     LObj [(''results'', LArr (results st)),
           (''summary'',
              LObj [(''total'', LNum (int n)),
                    (''executed'', LNum (int (executed st))),
                    (''succeeded'', LNum (int (succeeded st))),
                    (''failed'', LNum (int (failed st))),
                    (''stoppedEarly'', LBool (stoppedEarly st))])]"

text \<open>
  \<open>batch.execute(moho, params)\<close>. Reading \<open>params.operations\<close> raises when
  \<open>params\<close> is a boolean, a number or a function; a string has a metatable, whose
  index is the string library, with no such key.
\<close>

definition indexable :: "lua \<Rightarrow> bool" where
  "indexable v = (lua_type (Some v) = ''table'' \<or> lua_type (Some v) = ''string'')"

definition batch_execute :: "(string \<rightharpoonup> 'w tool) \<Rightarrow> 'w machine \<Rightarrow> lua \<Rightarrow> houtcome \<times> 'w machine" where
  "batch_execute tools m params =
     (if \<not> indexable params
      then (Raises (''attempt to index a '' @ lua_type (Some params) @ '' value''), m)
      else
        let operations = field params ''operations'';
            stopOnError = truthy (field params ''stopOnError'')
        in case operations of
             None \<Rightarrow> (Returns None (Some (LStr ''operations must be a non-empty array'')), m)
           | Some ops \<Rightarrow>
               if lua_type (Some ops) \<noteq> ''table'' \<or> len ops = 0
               then (Returns None (Some (LStr ''operations must be a non-empty array'')), m)
               else if len ops > MAX_OPERATIONS
               then (Returns None
                       (Some (LStr (''Too many operations: '' @ tostring_nat (len ops)
                                    @ '' (max '' @ tostring_nat MAX_OPERATIONS @ '')''))), m)
               else
                 let st = batch_loop tools stopOnError 1 (ipairs ops) (batch_init m)
                 in (Returns (Some (batch_reply (len ops) st)) None, mach st))"

section \<open>Server (server.lua)\<close>

text \<open>
  A registered handler runs on the machine. A tool changes the application state only.
\<close>

type_synonym 'w handler = "'w machine \<Rightarrow> lua \<Rightarrow> houtcome \<times> 'w machine"

definition lift_tool :: "'w tool \<Rightarrow> 'w handler" where
  "lift_tool h m params = (let (out, w') = h (world m) params in (out, m\<lparr>world := w'\<rparr>))"

text \<open>
  The table \<open>handlers\<close> after \<open>loadModules\<close>: the tools of the domain modules, each
  under its method name, and \<open>batch.execute\<close> of the batch module under
  \<open>batch.execute\<close>. \<open>server.getHandler(method)\<close> and \<open>handlers[method]\<close> read it.
\<close>

definition handlers :: "(string \<rightharpoonup> 'w tool) \<Rightarrow> string \<rightharpoonup> 'w handler" where
  "handlers tools method =
     (if method = ''batch.execute'' then Some (batch_execute tools)
      else map_option lift_tool (tools method))"

text \<open>\<open>pcall(handler, moho, params)\<close> in \<open>processRequest\<close>, with the call logged.\<close>

definition pcall_handler :: "'w handler \<Rightarrow> string \<Rightarrow> lua \<Rightarrow> 'w machine \<Rightarrow> houtcome \<times> 'w machine" where
  "pcall_handler handler method params m = handler (m\<lparr>calls := calls m @ [(method, params)]\<rparr>) params"

text \<open>
  \<open>processRequest(requestStr, moho)\<close> returns the response text; \<open>Inl\<close> is the error
  it raises when \<open>json.encode\<close> raises inside \<open>createResponse\<close> or \<open>createError\<close>.
  What the handler did to the machine before that stays done.
\<close>

definition processRequest ::
    "(string \<Rightarrow> lua option) \<Rightarrow> (string \<rightharpoonup> 'w tool) \<Rightarrow> string \<Rightarrow> 'w machine \<Rightarrow> (string + encoded) \<times> 'w machine" where
  "processRequest dec tools requestStr m =
     (case parseRequest dec requestStr of
        Inl parseErr \<Rightarrow> (createError None PARSE_ERROR (Some (LStr parseErr)) None, m)
      | Inr request \<Rightarrow>
         (let method = req_method request;
              params = params_or_empty (req_params request);
              id' = Some (req_id request)
          in if \<not> isAllowed method
             then (createError id' METHOD_NOT_FOUND (Some (LStr (''Method not found: '' @ method))) None, m)
             else case validateParams method (Some params) of
               Inl validErr \<Rightarrow> (createError id' INVALID_PARAMS (Some (LStr validErr)) None, m)
             | Inr _ \<Rightarrow>
                (case handlers tools method of
                   None \<Rightarrow>
                     (createError id' METHOD_NOT_FOUND
                        (Some (LStr (''No handler registered for: '' @ method))) None, m)
                 | Some handler \<Rightarrow>
                    (case pcall_handler handler method params m of
                       (Raises e, m') \<Rightarrow>
                         (createError id' INTERNAL_ERROR (Some (LStr (''Handler error: '' @ e))) None, m')
                     | (Returns result handlerErr, m') \<Rightarrow>
                         if result = None \<and> truthy handlerErr
                         then (createError id' INTERNAL_ERROR handlerErr None, m')
                         else (createResponse id' result, m')))))"

text \<open>
  The IPC directory, shared by the server and the bridge: the request files
  \<open>req_<id>.json\<close>, written by the bridge, and the response files
  \<open>resp_<id>.json\<close>, written by the server; a file is named by its id. A request
  file holds any text; the content of a response file is of type \<open>'r\<close>, which is
  \<open>encoded\<close> for the files the server writes. File operations succeed: opening a file
  for reading fails only when it does not exist, and writing (to a temporary file that
  is then renamed) and removing do what they say.
\<close>

record 'r ipc =
  req_file :: "nat \<rightharpoonup> string"
  resp_file :: "nat \<rightharpoonup> 'r"

definition write_req :: "nat \<Rightarrow> string \<Rightarrow> 'r ipc \<Rightarrow> 'r ipc" where
  "write_req i content d = d\<lparr>req_file := (req_file d)(i \<mapsto> content)\<rparr>"

definition write_resp :: "nat \<Rightarrow> 'r \<Rightarrow> 'r ipc \<Rightarrow> 'r ipc" where
  "write_resp i content d = d\<lparr>resp_file := (resp_file d)(i \<mapsto> content)\<rparr>"

definition remove_req :: "nat \<Rightarrow> 'r ipc \<Rightarrow> 'r ipc" where
  "remove_req i d = d\<lparr>req_file := (req_file d)(i := None)\<rparr>"

definition remove_resp :: "nat \<Rightarrow> 'r ipc \<Rightarrow> 'r ipc" where
  "remove_resp i d = d\<lparr>resp_file := (resp_file d)(i := None)\<rparr>"

text \<open>The state of the server: the flag \<open>isRunning\<close>, the IPC directory and the machine.\<close>

record 'w server =
  isRunning :: bool
  dir :: "encoded ipc"
  machine :: "'w machine"

text \<open>
  \<open>findFilesByPrefix(dir, prefix)\<close>: the loop \<open>for id = 1, 10000\<close> from \<open>id\<close> on,
  with the locals \<open>misses\<close> and \<open>files\<close>. \<open>exists id\<close> says that
  \<open>io.open(dir .. prefix .. id .. ".json", "r")\<close> succeeds; the file name found is
  kept as its id.
\<close>

function findFiles_from :: "(nat \<Rightarrow> bool) \<Rightarrow> nat \<Rightarrow> nat \<Rightarrow> nat list \<Rightarrow> nat list" where
  "findFiles_from exists id' misses files =
     (if id' > 10000 then files
      else if exists id' then findFiles_from exists (id' + 1) 0 (files @ [id'])
      else if misses + 1 > 100 then files
      else findFiles_from exists (id' + 1) (misses + 1) files)"
  by pat_completeness auto
termination
  by (relation "measure (\<lambda>(exists, id', misses, files). 10001 - id')") auto

declare findFiles_from.simps [simp del]

definition findFilesByPrefix :: "(nat \<Rightarrow> bool) \<Rightarrow> nat list" where
  "findFilesByPrefix exists = findFiles_from exists 1 0 []"

text \<open>
  The body of the loop of \<open>server.poll\<close> for a request file that was read: process
  the content under \<open>pcall\<close>, write the response file under the id of the file name,
  remove the request file. \<open>Inl\<close> is an error that leaves \<open>poll\<close>: the call of
  \<open>createError\<close> after a crash is not under \<open>pcall\<close>.
\<close>

definition serve_request ::
    "(string \<Rightarrow> lua option) \<Rightarrow> (string \<rightharpoonup> 'w tool) \<Rightarrow> nat \<Rightarrow> string \<Rightarrow> 'w server \<Rightarrow> string + 'w server" where
  "serve_request dec tools reqId content s =
     (case processRequest dec tools content (machine s) of
        (Inr response, m') \<Rightarrow>
          Inr (s\<lparr>dir := remove_req reqId (write_resp reqId response (dir s)), machine := m'\<rparr>)
      | (Inl crash, m') \<Rightarrow>
          (case createError None INTERNAL_ERROR (Some (LStr (''Server crash: '' @ crash))) None of
             Inl e \<Rightarrow> Inl e
           | Inr response \<Rightarrow>
               Inr (s\<lparr>dir := remove_req reqId (write_resp reqId response (dir s)), machine := m'\<rparr>)))"

text \<open>The loop of \<open>server.poll\<close> over the files found, with the local \<open>processed\<close>.\<close>

fun poll_loop ::
    "(string \<Rightarrow> lua option) \<Rightarrow> (string \<rightharpoonup> 'w tool) \<Rightarrow> nat list \<Rightarrow> nat \<Rightarrow> 'w server \<Rightarrow> string + 'w server" where
  "poll_loop dec tools [] processed s = Inr s"
| "poll_loop dec tools (reqId # rest) processed s =
     (if processed \<ge> 2 then Inr s
      else case req_file (dir s) reqId of
        None \<Rightarrow> poll_loop dec tools rest processed s
      | Some content \<Rightarrow>
         (case serve_request dec tools reqId content s of
            Inl e \<Rightarrow> Inl e
          | Inr s' \<Rightarrow> poll_loop dec tools rest (processed + 1) s'))"

text \<open>\<open>server.poll(moho)\<close>: one tick.\<close>

definition poll :: "(string \<Rightarrow> lua option) \<Rightarrow> (string \<rightharpoonup> 'w tool) \<Rightarrow> 'w server \<Rightarrow> string + 'w server" where
  "poll dec tools s =
     (if \<not> isRunning s then Inr s
      else poll_loop dec tools (findFilesByPrefix (\<lambda>i. req_file (dir s) i \<noteq> None)) 0 s)"

text \<open>A number of ticks, one after the other; an error that leaves one ends them.\<close>

fun ticks :: "(string \<Rightarrow> lua option) \<Rightarrow> (string \<rightharpoonup> 'w tool) \<Rightarrow> nat \<Rightarrow> 'w server \<Rightarrow> string + 'w server" where
  "ticks dec tools 0 s = Inr s"
| "ticks dec tools (Suc n) s =
     (case poll dec tools s of Inl e \<Rightarrow> Inl e | Inr s' \<Rightarrow> ticks dec tools n s')"

text \<open>The \<open>id\<close>, the \<open>result\<close> and the \<open>error.code\<close> of a response text.\<close>

fun envelope_id :: "encoded \<Rightarrow> lua option" where
  "envelope_id (Encoded v) = field v ''id''"

fun envelope_result :: "encoded \<Rightarrow> lua option" where
  "envelope_result (Encoded v) = field v ''result''"

fun envelope_error_code :: "encoded \<Rightarrow> lua option" where
  "envelope_error_code (Encoded v) =
     (case field v ''error'' of None \<Rightarrow> None | Some e \<Rightarrow> field e ''code'')"

section \<open>Bridge: protocol.ts\<close>

text \<open>
  The values \<open>JSON.parse\<close> returns. A property that is \<open>undefined\<close> is \<open>None\<close>.
  Numbers are kept as integers, as on the Lua side. \<open>JSON.parse\<close> itself is a
  parameter \<open>parse\<close>, with \<open>None\<close> when it throws.
\<close>

datatype js =
    JNull
  | JBool bool
  | JNum int
  | JStr string
  | JArr "js list"
  | JObj "(string \<times> js) list"

text \<open>\<open>typeof v\<close>\<close>

fun typeof :: "js \<Rightarrow> string" where
  "typeof JNull = ''object''"
| "typeof (JBool b) = ''boolean''"
| "typeof (JNum n) = ''number''"
| "typeof (JStr s) = ''string''"
| "typeof (JArr xs) = ''object''"
| "typeof (JObj kvs) = ''object''"

text \<open>
  \<open>obj.k\<close> for the keys read by the bridge (\<open>jsonrpc\<close>, \<open>error\<close>, \<open>result\<close>), which
  no array has.
\<close>

fun property :: "js \<Rightarrow> string \<Rightarrow> js option" where
  "property (JObj kvs) k = map_of kvs k"
| "property v k = None"

text \<open>A value in a condition.\<close>

fun js_truthy :: "js option \<Rightarrow> bool" where
  "js_truthy None = False"
| "js_truthy (Some JNull) = False"
| "js_truthy (Some (JBool b)) = b"
| "js_truthy (Some (JNum n)) = (n \<noteq> 0)"
| "js_truthy (Some (JStr s)) = (s \<noteq> '''')"
| "js_truthy (Some v) = True"

text \<open>
  \<open>String.prototype.trim\<close>. The characters of the model are the code units below
  256; those that \<open>trim\<close> strips are the white space 09, 0B, 0C, 20, A0 and the line
  terminators 0A, 0D.
\<close>

definition is_space :: "char \<Rightarrow> bool" where
  "is_space c = (c \<in> {CHR 0x09, CHR 0x0A, CHR 0x0B, CHR 0x0C, CHR 0x0D, CHR 0x20, CHR 0xA0})"

definition trim :: "string \<Rightarrow> string" where
  "trim s = rev (dropWhile is_space (rev (dropWhile is_space s)))"

text \<open>
  The errors the bridge throws, as values: the four of \<open>parseResponse\<close> (with the
  text or value the message quotes; \<open>obj.jsonrpc ?? "missing"\<close> quotes \<open>missing\<close>,
  here \<open>None\<close>, for a member that is absent or \<open>null\<close>), and those of \<open>sendRequest\<close>.
\<close>

datatype client_error =
    EmptyResponse
  | InvalidJson string
  | NotAnObject
  | UnexpectedVersion "js option"
  | NotConnected
  | MohoError js
  | TimedOut string nat int

text \<open>\<open>parseResponse(data)\<close>\<close>

definition parseResponse :: "(string \<Rightarrow> js option) \<Rightarrow> string \<Rightarrow> client_error + js" where
  "parseResponse parse data =
     (let trimmed = trim data
      in if length trimmed = 0 then Inl EmptyResponse
         else case parse trimmed of
           None \<Rightarrow> Inl (InvalidJson (take 200 trimmed))
         | Some parsed \<Rightarrow>
             if typeof parsed \<noteq> ''object'' \<or> parsed = JNull then Inl NotAnObject
             else if property parsed ''jsonrpc'' \<noteq> Some (JStr ''2.0'')
             then Inl (UnexpectedVersion
                         (case property parsed ''jsonrpc'' of Some JNull \<Rightarrow> None | v \<Rightarrow> v))
             else Inr parsed)"

section \<open>Bridge: moho-client.ts\<close>

text \<open>\<open>config.moho\<close>, in milliseconds.\<close>

definition pollInterval :: int where "pollInterval = 100"
definition requestTimeout :: int where "requestTimeout = 10000"

record client =
  nextId :: nat
  connected :: bool

text \<open>
  What \<open>sendRequest\<close> meets outside itself: \<open>JSON.stringify\<close> and \<open>JSON.parse\<close>;
  the text \<open>readFile(path, "utf-8")\<close> makes of the content of a response file; the
  clock, \<open>start\<close> being the value of \<open>Date.now()\<close> before the loop and \<open>clock k\<close> its
  value at the timeout check of round \<open>k\<close> of the loop (from 0); and \<open>other k\<close>, what
  the other side has done to the directory when round \<open>k\<close> reads it.
\<close>

record 'r env =
  stringify :: "js \<Rightarrow> string"
  parse :: "string \<Rightarrow> js option"
  utf8 :: "'r \<Rightarrow> string"
  start :: int
  clock :: "nat \<Rightarrow> int"
  other :: "nat \<Rightarrow> 'r ipc \<Rightarrow> 'r ipc"

text \<open>
  The loop \<open>while (true)\<close> of \<open>sendRequest\<close>, from round \<open>k\<close> on. It returns the
  outcome of the call (\<open>Inl\<close> an error thrown, \<open>Inr\<close> the result) and the directory;
  \<open>None\<close> is a loop that never ends.
\<close>

partial_function (option) await_response ::
    "'r env \<Rightarrow> nat \<Rightarrow> string \<Rightarrow> int \<Rightarrow> nat \<Rightarrow> 'r ipc \<Rightarrow> ((client_error + js option) \<times> 'r ipc) option" where
  "await_response E i method timeout k d0 =
     (let d = other E k d0
      in case resp_file d i of
           Some content \<Rightarrow>
             (case parseResponse (parse E) (utf8 E content) of
                Inl err \<Rightarrow> Some (Inl err, remove_resp i d)
              | Inr response \<Rightarrow>
                  if js_truthy (property response ''error'')
                  then (case property response ''error'' of
                          Some e \<Rightarrow> Some (Inl (MohoError e), remove_resp i d)
                        | None \<Rightarrow> Some (Inr (property response ''result''), remove_resp i d))
                  else Some (Inr (property response ''result''), remove_resp i d))
         | None \<Rightarrow>
             if clock E k - start E > timeout
             then Some (Inl (TimedOut method i timeout), remove_req i d)
             else await_response E i method timeout (k + 1) d)"

text \<open>\<open>sendRequest(method, params, options)\<close>, with \<open>options?.timeout\<close> as an option.\<close>

definition sendRequest ::
    "'r env \<Rightarrow> client \<Rightarrow> string \<Rightarrow> js \<Rightarrow> int option \<Rightarrow> 'r ipc
       \<Rightarrow> ((client_error + js option) \<times> client \<times> 'r ipc) option" where
  "sendRequest E c method params opt_timeout d =
     (if \<not> connected c then Some (Inl NotConnected, c, d)
      else
        let i = nextId c;
            c' = c\<lparr>nextId := i + 1\<rparr>;
            timeout = (case opt_timeout of None \<Rightarrow> requestTimeout | Some t \<Rightarrow> t);
            request = JObj [(''jsonrpc'', JStr ''2.0''), (''id'', JNum (int i)),
                            (''method'', JStr method), (''params'', params)];
            d1 = write_req i (stringify E request) d
        in case await_response E i method timeout 0 d1 of
             None \<Rightarrow> None
           | Some (out, d') \<Rightarrow> Some (out, c', d'))"

text \<open>
  With the loop at round \<open>k\<close> and the directory \<open>d\<close>, \<open>seen E k d n\<close> is the
  directory that round \<open>k + n\<close> reads, when no round before it found a response or
  timed out.
\<close>

fun seen :: "'r env \<Rightarrow> nat \<Rightarrow> 'r ipc \<Rightarrow> nat \<Rightarrow> 'r ipc" where
  "seen E k d 0 = other E k d"
| "seen E k d (Suc n) = other E (k + Suc n) (seen E k d n)"

section \<open>Notions used in the statements\<close>

text \<open>The method of an operation that passes the structure check of the loop.\<close>

definition op_method :: "lua \<Rightarrow> string option" where
  "op_method op =
     (case (if lua_type (Some op) = ''table'' then field op ''method'' else None) of
        Some (LStr m) \<Rightarrow> Some m
      | _ \<Rightarrow> None)"

text \<open>
  An operation that the loop rejects before it calls a handler: bad structure, on the
  denylist, not on the allow-list, invalid parameters, or no handler registered.
\<close>

definition rejected :: "(string \<rightharpoonup> 'w tool) \<Rightarrow> lua \<Rightarrow> bool" where
  "rejected tools op =
     (case op_method op of
        None \<Rightarrow> True
      | Some m \<Rightarrow> m \<in> set disallowedInBatch \<or> \<not> isAllowed m
                  \<or> isl (validateParams m (Some (params_or_empty (field op ''params''))))
                  \<or> tools m = None)"

text \<open>The entry stored for an operation that is skipped.\<close>

definition skipped :: "nat \<Rightarrow> lua" where
  "skipped i = failure i (- 32000) (Some (LStr ''Skipped (stopOnError)''))"

text \<open>
  Example inputs: five tools on an application state that counts the frames set, and a
  batch of three operations of which the second fails.
\<close>

definition example_tools :: "string \<rightharpoonup> nat tool" where
  "example_tools =
     [''document.getInfo'' \<mapsto> (\<lambda>w p. (Returns (Some (LNum (int w))) None, w)),
      ''document.setFrame'' \<mapsto> (\<lambda>w p. (Returns (Some (LBool True)) None, w + 1)),
      ''layer.getBones'' \<mapsto> (\<lambda>w p. (Returns None (Some (LStr ''Layer not found'')), w)),
      ''layer.getProperties'' \<mapsto> (\<lambda>w p. (Returns (Some (LObj [(''opacity'', LNonFinite)])) None, w)),
      ''layer.selectLayer'' \<mapsto> (\<lambda>w p. (Raises ''attempt to index a nil value'', w))]"

definition example_ops :: "lua list" where
  "example_ops =
     [LObj [(''method'', LStr ''document.setFrame''), (''params'', LObj [(''frame'', LNum 3)])],
      LObj [(''method'', LStr ''layer.getBones''), (''params'', LObj [(''layerId'', LNum 9)])],
      LObj [(''method'', LStr ''document.setFrame''), (''params'', LObj [(''frame'', LNum 4)])]]"


text \<open>
  Example inputs: a decoder that knows two request texts, and a server with the two
  requests pending.
\<close>

definition example_dec :: "string \<Rightarrow> lua option" where
  "example_dec text =
     (if text = ''select layer 5''
      then Some (LObj [(''jsonrpc'', LStr ''2.0''), (''id'', LNum 1),
                       (''method'', LStr ''layer.selectLayer''),
                       (''params'', LObj [(''layerId'', LNum 5)])])
      else if text = ''get info''
      then Some (LObj [(''jsonrpc'', LStr ''2.0''), (''id'', LNum 2),
                       (''method'', LStr ''document.getInfo'')])
      else if text = ''get layer 7''
      then Some (LObj [(''jsonrpc'', LStr ''2.0''), (''id'', LNum 3),
                       (''method'', LStr ''layer.getProperties''),
                       (''params'', LObj [(''layerId'', LNum 7)])])
      else if text = ''batch of 3''
      then Some (LObj [(''jsonrpc'', LStr ''2.0''), (''id'', LNum 4),
                       (''method'', LStr ''batch.execute''),
                       (''params'', LObj [(''operations'', LArr example_ops)])])
      else if text = ''batch of 51''
      then Some (LObj [(''jsonrpc'', LStr ''2.0''), (''id'', LNum 5),
                       (''method'', LStr ''batch.execute''),
                       (''params'', LObj [(''operations'', LArr (replicate 51 (LObj [])))])])
      else if text = ''batch of 0''
      then Some (LObj [(''jsonrpc'', LStr ''2.0''), (''id'', LNum 6),
                       (''method'', LStr ''batch.execute''),
                       (''params'', LObj [(''operations'', LArr [])])])
      else if text = ''batch of none''
      then Some (LObj [(''jsonrpc'', LStr ''2.0''), (''id'', LNum 7),
                       (''method'', LStr ''batch.execute''),
                       (''params'', LObj [(''operations'', LStr ''all'')])])
      else if text = ''[1, 2]''
      then Some (LArr [LNum 1, LNum 2])
      else if text = ''{}''
      then Some (LObj [])
      else None)"

definition example_server :: "nat server" where
  "example_server =
     \<lparr>isRunning = True,
      dir = \<lparr>req_file = [1 \<mapsto> ''select layer 5'', 2 \<mapsto> ''get info''], resp_file = Map.empty\<rparr>,
      machine = \<lparr>world = 0, calls = []\<rparr>\<rparr>"

text \<open>
  Example inputs: a bridge whose clock advances by 100 ms a round, with no answer from
  the other side, which takes the request file away before round 2.
\<close>

definition example_env :: "string env" where
  "example_env =
     \<lparr>stringify = (\<lambda>v. ''request''),
      parse = (\<lambda>text. if text = ''{}'' then Some (JObj []) else if text = ''7'' then Some (JNum 7) else None),
      utf8 = (\<lambda>text. text),
      start = 1000,
      clock = (\<lambda>k. 1005 + 100 * int k),
      other = (\<lambda>k d. if k = 2 then remove_req 1 d else d)\<rparr>"

text \<open>
  Example inputs: a bridge whose other side is the example server, ticking three times
  between two rounds of the loop; and a server with the lone request 150 pending.
\<close>

definition example_link :: "encoded env" where
  "example_link =
     \<lparr>stringify = (\<lambda>v. ''get info''),
      parse = (\<lambda>text. None),
      utf8 = (\<lambda>r. ''''),
      start = 0,
      clock = (\<lambda>k. 100 * int k),
      other = (\<lambda>k d'.
        case ticks example_dec example_tools 3
               \<lparr>isRunning = True, dir = d', machine = \<lparr>world = 0, calls = []\<rparr>\<rparr> of
          Inr s' \<Rightarrow> dir s'
        | Inl e \<Rightarrow> d')\<rparr>"

definition example_lone :: "nat server" where
  "example_lone =
     \<lparr>isRunning = True,
      dir = \<lparr>req_file = [150 \<mapsto> ''get info''], resp_file = Map.empty\<rparr>,
      machine = \<lparr>world = 0, calls = []\<rparr>\<rparr>"

text \<open>An entry of the result array that is the skipped entry.\<close>

definition is_skipped :: "lua \<Rightarrow> bool" where
  "is_skipped e =
     (field e ''error'' =
        Some (LObj [(''code'', LNum (- 32000)), (''message'', LStr ''Skipped (stopOnError)'')]))"

text \<open>
  Example input: a batch of six operations, of which the first five are rejected before
  a handler is called, each for another reason.
\<close>

definition example_rejects :: "lua list" where
  "example_rejects =
     [LNum 3,
      LObj [(''method'', LStr ''document.screenshot'')],
      LObj [(''method'', LStr ''nope'')],
      LObj [(''method'', LStr ''layer.getBones'')],
      LObj [(''method'', LStr ''mesh.getPoints''), (''params'', LObj [(''layerId'', LNum 1)])],
      LObj [(''method'', LStr ''document.setFrame''), (''params'', LObj [(''frame'', LNum 3)])]]"

section \<open>Properties of the validator\<close>

lemma check_fields_prefix:
  "list_all (field_ok p) pre \<Longrightarrow> check_fields (pre @ rest) p = check_fields rest p"
  by (induction pre) (auto simp: field_ok_def split: option.splits)

lemma check_fields_all_ok:
  "list_all (field_ok p) sch \<Longrightarrow> check_fields sch p = Inr ()"
  using check_fields_prefix [of p sch "[]"] by simp

lemma validateParams_empty_schema:
  "map_of paramSchemas meth = Some [] \<Longrightarrow> validateParams meth params = Inr ()"
  by (simp add: validateParams_def)

lemma validateParams_not_table:
  "map_of paramSchemas meth = Some sch \<Longrightarrow> sch \<noteq> [] \<Longrightarrow> lua_type params \<noteq> ''table'' \<Longrightarrow>
   validateParams meth params = Inl ''Missing params: expected a table of parameters''"
  by (auto simp: validateParams_def split: option.splits)

lemma validateParams_table:
  "map_of paramSchemas meth = Some sch \<Longrightarrow> sch \<noteq> [] \<Longrightarrow> lua_type (Some p) = ''table'' \<Longrightarrow>
   validateParams meth (Some p) = check_fields sch p"
  by (simp add: validateParams_def)

text \<open>
  Claim C5. A meth whose schema is empty passes validation whatever the parameters
  are. A meth with a non-empty schema needs the parameters to be a table; the
  declared fields are checked in order, a field for presence before type, and the
  message is that of the first field that fails: it names the field and says whether it
  is missing or of another type. Fields after the first failure, and fields that are
  not declared, play no part. For the schema \<open>[{layerId: number}]\<close> of
  \<open>layer.getProperties\<close>: \<open>{}\<close> fails with \<open>layerId\<close> missing, \<open>{layerId: "x"}\<close>
  fails with a type mismatch, \<open>{layerId: 1}\<close> passes.
\<close>

theorem validateParams_first_violation:
  "(map_of paramSchemas meth = Some [] \<longrightarrow> validateParams meth params = Inr ())
 \<and> (map_of paramSchemas meth = Some sch \<and> sch \<noteq> [] \<and> lua_type params \<noteq> ''table'' \<longrightarrow>
      validateParams meth params = Inl ''Missing params: expected a table of parameters'')
 \<and> (map_of paramSchemas meth = Some (pre @ (name, ty) # post) \<and> lua_type (Some p) = ''table''
      \<and> list_all (field_ok p) pre \<and> field p name = None \<longrightarrow>
      validateParams meth (Some p) = Inl (''Missing required parameter: '' @ name))
 \<and> (map_of paramSchemas meth = Some (pre @ (name, ty) # post) \<and> lua_type (Some p) = ''table''
      \<and> list_all (field_ok p) pre \<and> field p name = Some v \<and> lua_type (Some v) \<noteq> ty \<longrightarrow>
      validateParams meth (Some p) =
        Inl (''Invalid parameter type for '' @ [CHR 0x27] @ name @ [CHR 0x27]
             @ '': expected '' @ ty @ '', got '' @ lua_type (Some v)))
 \<and> (map_of paramSchemas meth = Some sch \<and> lua_type (Some p) = ''table''
      \<and> list_all (field_ok p) sch \<longrightarrow> validateParams meth (Some p) = Inr ())
 \<and> validateParams ''layer.getProperties'' (Some (LObj [])) = Inl ''Missing required parameter: layerId''
 \<and> validateParams ''layer.getProperties'' (Some (LObj [(''layerId'', LStr ''x'')])) =
      Inl (''Invalid parameter type for '' @ [CHR 0x27] @ ''layerId'' @ [CHR 0x27] @ '': expected number, got string'')
 \<and> validateParams ''layer.getProperties'' (Some (LObj [(''layerId'', LNum 1)])) = Inr ()"
proof (intro conjI impI)
  show "validateParams ''layer.getProperties'' (Some (LObj [])) = Inl ''Missing required parameter: layerId''"
    by (simp add: validateParams_def paramSchemas_def)
  show "validateParams ''layer.getProperties'' (Some (LObj [(''layerId'', LStr ''x'')])) =
      Inl (''Invalid parameter type for '' @ [CHR 0x27] @ ''layerId'' @ [CHR 0x27] @ '': expected number, got string'')"
    by (simp add: validateParams_def paramSchemas_def)
  show "validateParams ''layer.getProperties'' (Some (LObj [(''layerId'', LNum 1)])) = Inr ()"
    by (simp add: validateParams_def paramSchemas_def)
next
  assume "map_of paramSchemas meth = Some []"
  then show "validateParams meth params = Inr ()" by (rule validateParams_empty_schema)
next
  assume "map_of paramSchemas meth = Some sch \<and> sch \<noteq> [] \<and> lua_type params \<noteq> ''table''"
  then show "validateParams meth params = Inl ''Missing params: expected a table of parameters''"
    by (simp add: validateParams_not_table)
next
  assume a: "map_of paramSchemas meth = Some (pre @ (name, ty) # post) \<and> lua_type (Some p) = ''table''
      \<and> list_all (field_ok p) pre \<and> field p name = None"
  then have "validateParams meth (Some p) = check_fields (pre @ (name, ty) # post) p"
    by (simp add: validateParams_table)
  with a show "validateParams meth (Some p) = Inl (''Missing required parameter: '' @ name)"
    by (simp add: check_fields_prefix)
next
  assume a: "map_of paramSchemas meth = Some (pre @ (name, ty) # post) \<and> lua_type (Some p) = ''table''
      \<and> list_all (field_ok p) pre \<and> field p name = Some v \<and> lua_type (Some v) \<noteq> ty"
  then have "validateParams meth (Some p) = check_fields (pre @ (name, ty) # post) p"
    by (simp add: validateParams_table)
  with a show "validateParams meth (Some p) =
        Inl (''Invalid parameter type for '' @ [CHR 0x27] @ name @ [CHR 0x27]
             @ '': expected '' @ ty @ '', got '' @ lua_type (Some v))"
    by (simp add: check_fields_prefix)
next
  assume a: "map_of paramSchemas meth = Some sch \<and> lua_type (Some p) = ''table''
      \<and> list_all (field_ok p) sch"
  show "validateParams meth (Some p) = Inr ()"
  proof (cases "sch = []")
    case True
    with a show ?thesis by (simp add: validateParams_empty_schema)
  next
    case False
    with a show ?thesis by (simp add: validateParams_table check_fields_all_ok)
  qed
qed

theorem validateParams_first_violation_witness:
  "validateParams ''document.getInfo'' (Some (LStr ''anything'')) = Inr ()
 \<and> validateParams ''layer.setName'' (Some (LNum 3)) = Inl ''Missing params: expected a table of parameters''
 \<and> validateParams ''bone.setTransform'' (Some (LObj [(''layerId'', LNum 1), (''frame'', LStr ''x'')])) =
      Inl ''Missing required parameter: boneId''
 \<and> validateParams ''layer.setName'' (Some (LObj [(''layerId'', LNum 1), (''name'', LNum 2)])) =
      Inl (''Invalid parameter type for '' @ [CHR 0x27] @ ''name'' @ [CHR 0x27] @ '': expected string, got number'')
 \<and> validateParams ''layer.setName'' (Some (LObj [(''layerId'', LNum 1), (''name'', LStr ''a''), (''extra'', LNull)])) = Inr ()"
  using validateParams_first_violation [where meth = "''document.getInfo''" and params = "Some (LStr ''anything'')"]
    validateParams_first_violation [where meth = "''layer.setName''" and params = "Some (LNum 3)"
      and sch = "[(''layerId'', ''number''), (''name'', ''string'')]"]
    validateParams_first_violation [where meth = "''bone.setTransform''" and pre = "[(''layerId'', ''number'')]"
      and name = "''boneId''" and ty = "''number''" and post = "[(''frame'', ''number'')]"
      and p = "LObj [(''layerId'', LNum 1), (''frame'', LStr ''x'')]"]
    validateParams_first_violation [where meth = "''layer.setName''" and pre = "[(''layerId'', ''number'')]"
      and name = "''name''" and ty = "''string''" and post = "[]" and v = "LNum 2"
      and p = "LObj [(''layerId'', LNum 1), (''name'', LNum 2)]"]
    validateParams_first_violation [where meth = "''layer.setName''"
      and sch = "[(''layerId'', ''number''), (''name'', ''string'')]"
      and p = "LObj [(''layerId'', LNum 1), (''name'', LStr ''a''), (''extra'', LNull)]"]
  by (simp add: paramSchemas_def field_ok_def)

section \<open>Properties of batch execution\<close>

lemma op_failed_simps [simp]:
  "results (op_failed soe i c msg st) = results st @ [failure i c msg]"
  "failed (op_failed soe i c msg st) = failed st + 1"
  "executed (op_failed soe i c msg st) = executed st + 1"
  "succeeded (op_failed soe i c msg st) = succeeded st"
  "stoppedEarly (op_failed soe i c msg st) = (soe \<or> stoppedEarly st)"
  "mach (op_failed soe i c msg st) = mach st"
  by (simp_all add: op_failed_def)

lemma field_failure [simp]:
  "field (failure i c msg) ''success'' = Some (LBool False)"
  "field (failure i c msg) ''index'' = Some (LNum (int i))"
  by (simp_all add: failure_def)

lemma field_success [simp]:
  "field (success i r) ''success'' = Some (LBool True)"
  "field (success i r) ''index'' = Some (LNum (int i))"
  by (simp_all add: success_def)

lemma batch_op_stopped:
  "stoppedEarly st \<Longrightarrow> batch_op tools soe i op st = st\<lparr>results := results st @ [skipped i]\<rparr>"
  by (simp add: batch_op_def skipped_def)

lemma batch_op_running:
  assumes "\<not> stoppedEarly st"
  shows "(\<exists>c msg m'. batch_op tools soe i op st = op_failed soe i c msg (st\<lparr>mach := m'\<rparr>)
            \<and> c \<in> {- 32600, - 32601, - 32602, - 32603})
       \<or> (\<exists>r m'. batch_op tools soe i op st =
             st\<lparr>results := results st @ [success i r], succeeded := succeeded st + 1,
                executed := executed st + 1, mach := m'\<rparr>)"
proof -
  have same: "st\<lparr>mach := mach st\<rparr> = st" by simp
  have "\<And>c msg. c \<in> {- 32600, - 32601, - 32602, - 32603} \<Longrightarrow>
      \<exists>c' msg' m'. op_failed soe i c msg st = op_failed soe i c' msg' (st\<lparr>mach := m'\<rparr>)
         \<and> c' \<in> {- 32600, - 32601, - 32602, - 32603}"
    using same by metis
  with assms show ?thesis
    by (auto simp: batch_op_def Let_def split: option.splits lua.splits sum.splits prod.splits houtcome.splits)
qed

lemma batch_op_rejected:
  assumes "\<not> stoppedEarly st" "rejected tools op"
  shows "\<exists>c msg. batch_op tools soe i op st = op_failed soe i c msg st"
  using assms
  by (auto simp: batch_op_def rejected_def op_method_def Let_def
      split: option.splits lua.splits sum.splits if_splits)

lemma batch_op_invariant:
  assumes "executed st = succeeded st + failed st"
  shows "executed (batch_op tools soe i op st) =
         succeeded (batch_op tools soe i op st) + failed (batch_op tools soe i op st)"
proof (cases "stoppedEarly st")
  case True
  with assms show ?thesis by (simp add: batch_op_stopped)
next
  case False
  from batch_op_running [OF this, of tools soe i op] assms show ?thesis by auto
qed

lemma batch_op_results:
  "\<exists>e. results (batch_op tools soe i op st) = results st @ [e]
       \<and> field e ''index'' = Some (LNum (int i))"
proof (cases "stoppedEarly st")
  case True
  then show ?thesis by (simp add: batch_op_stopped skipped_def)
next
  case False
  from batch_op_running [OF this, of tools soe i op] show ?thesis by auto
qed

lemma batch_loop_append:
  "batch_loop tools soe i (xs @ ys) st =
   batch_loop tools soe (i + length xs) ys (batch_loop tools soe i xs st)"
  by (induction xs arbitrary: i st) simp_all

lemma batch_loop_invariant:
  "executed st = succeeded st + failed st \<Longrightarrow>
   executed (batch_loop tools soe i ops st) =
   succeeded (batch_loop tools soe i ops st) + failed (batch_loop tools soe i ops st)"
  by (induction ops arbitrary: i st) (simp_all add: batch_op_invariant)

lemma batch_loop_results:
  "\<exists>es. results (batch_loop tools soe i ops st) = results st @ es \<and> length es = length ops
        \<and> (\<forall>j < length ops. field (es ! j) ''index'' = Some (LNum (int (i + j))))"
proof (induction ops arbitrary: i st)
  case Nil
  then show ?case by simp
next
  case (Cons op ops)
  obtain e where e: "results (batch_op tools soe i op st) = results st @ [e]"
      "field e ''index'' = Some (LNum (int i))"
    using batch_op_results by blast
  obtain es where es: "results (batch_loop tools soe (Suc i) ops (batch_op tools soe i op st))
        = results (batch_op tools soe i op st) @ es" "length es = length ops"
      "\<forall>j < length ops. field (es ! j) ''index'' = Some (LNum (int (Suc i + j)))"
    using Cons.IH by blast
  have "\<forall>j < length (op # ops). field ((e # es) ! j) ''index'' = Some (LNum (int (i + j)))"
  proof (intro allI impI)
    fix j assume "j < length (op # ops)"
    then show "field ((e # es) ! j) ''index'' = Some (LNum (int (i + j)))"
      using e(2) es(3) by (cases j) auto
  qed
  with e es show ?case by (intro exI [of _ "e # es"]) simp
qed




lemma batch_execute_runs:
  assumes "field params ''operations'' = Some (LArr ops)" "ops \<noteq> []" "length ops \<le> 50"
  shows "batch_execute tools m params =
         (let st = batch_loop tools (truthy (field params ''stopOnError'')) 1 ops (batch_init m)
          in (Returns (Some (batch_reply (length ops) st)) None, mach st))"
proof -
  from assms(1) obtain kvs where "params = LObj kvs" by (cases params) auto
  then have "indexable params" by (simp add: indexable_def)
  with assms show ?thesis
    by (simp add: batch_execute_def MAX_OPERATIONS_def Let_def)
qed

lemma batch_execute_too_many:
  assumes "field params ''operations'' = Some (LArr ops)" "length ops > 50"
  shows "batch_execute tools m params =
         (Returns None (Some (LStr (''Too many operations: '' @ tostring_nat (length ops)
                                    @ '' (max 50)''))), m)"
proof -
  from assms(1) obtain kvs where "params = LObj kvs" by (cases params) auto
  then have "indexable params" by (simp add: indexable_def)
  moreover have "tostring_nat MAX_OPERATIONS = ''50''"
    by (simp add: MAX_OPERATIONS_def tostring_nat.simps digit_def)
  ultimately show ?thesis using assms
    by (auto simp: batch_execute_def MAX_OPERATIONS_def Let_def)
qed


lemmas batch_eval =
  batch_op_def batch_init_def op_failed_def failure_def success_def params_or_empty_def
  pcall_tool_def isAllowed_def allowedMethods_def disallowedInBatch_def
  validateParams_def paramSchemas_def example_tools_def example_ops_def



section \<open>Properties of the server\<close>

lemma code_small:
  "\<bar>PARSE_ERROR\<bar> < 2 ^ 53" "\<bar>INVALID_REQUEST\<bar> < 2 ^ 53" "\<bar>METHOD_NOT_FOUND\<bar> < 2 ^ 53"
  "\<bar>INVALID_PARAMS\<bar> < 2 ^ 53" "\<bar>INTERNAL_ERROR\<bar> < 2 ^ 53"
  by (simp_all add: PARSE_ERROR_def INVALID_REQUEST_def METHOD_NOT_FOUND_def INVALID_PARAMS_def
      INTERNAL_ERROR_def)

lemma encode_number_small: "\<bar>n\<bar> < 2 ^ 53 \<Longrightarrow> encode_number n = n"
  by (simp add: encode_number_def)

lemma encode_number_code [simp]:
  "encode_number PARSE_ERROR = PARSE_ERROR" "encode_number INVALID_REQUEST = INVALID_REQUEST"
  "encode_number METHOD_NOT_FOUND = METHOD_NOT_FOUND" "encode_number INVALID_PARAMS = INVALID_PARAMS"
  "encode_number INTERNAL_ERROR = INTERNAL_ERROR"
  by (simp_all add: encode_number_def PARSE_ERROR_def INVALID_REQUEST_def METHOD_NOT_FOUND_def
      INVALID_PARAMS_def INTERNAL_ERROR_def)

lemma field_encode_value: "field (encode_value v) k = map_option encode_value (field v k)"
proof (cases v)
  case (LObj kvs)
  have "map_of (map (\<lambda>kv. (fst kv, encode_value (snd kv))) kvs) k = map_option encode_value (map_of kvs k)"
    by (induction kvs) auto
  with LObj show ?thesis by simp
qed simp_all

lemma createError_no_id:
  "\<bar>c\<bar> < 2 ^ 53 \<Longrightarrow>
   createError None c (Some (LStr msg)) None =
     Inr (Encoded (LObj [(''jsonrpc'', LStr ''2.0''),
                         (''error'', LObj [(''code'', LNum c), (''message'', LStr msg)])]))"
  by (simp add: createError_def json_encode_def encode_number_small)

lemmas createError_parse = createError_no_id [OF code_small(1)]

lemmas createError_crash = createError_no_id [OF code_small(5)]

lemma createError_envelope:
  assumes "createError i c msg data = Inr resp"
  shows "envelope_id resp = map_option encode_value i"
    "envelope_error_code resp = Some (LNum (encode_number c))" "envelope_result resp = None"
  using assms
  by (cases i; auto simp: createError_def json_encode_def Let_def split: if_splits)+

lemma createResponse_envelope:
  assumes "createResponse i r = Inr resp"
  shows "envelope_id resp = map_option encode_value i" "envelope_error_code resp = None"
    "envelope_result resp = map_option encode_value r"
  using assms
  by (cases i; cases r; auto simp: createResponse_def json_encode_def split: if_splits)+

lemma processRequest_parse_error:
  assumes "parseRequest dec content = Inl e"
  shows "processRequest dec tools content m =
           (Inr (Encoded (LObj [(''jsonrpc'', LStr ''2.0''),
                                (''error'', LObj [(''code'', LNum PARSE_ERROR), (''message'', LStr e)])])), m)"
  using assms by (simp add: processRequest_def createError_parse)

lemma processRequest_answer:
  assumes "parseRequest dec content = Inr req"
  shows "(\<exists>c msg. fst (processRequest dec tools content m) = createError (Some (req_id req)) c msg None)
       \<or> (\<exists>r. fst (processRequest dec tools content m) = createResponse (Some (req_id req)) r)"
  using assms
  by (auto simp: processRequest_def Let_def split: sum.splits option.splits prod.splits houtcome.splits)

lemma processRequest_id:
  assumes "parseRequest dec content = Inr req" "processRequest dec tools content m = (Inr resp, m')"
  shows "envelope_id resp = Some (encode_value (req_id req))"
  using processRequest_answer [OF assms(1), of tools m] assms(2)
  by (auto dest: createError_envelope(1) [OF sym] createResponse_envelope(1) [OF sym])

lemma serve_request_dir:
  "\<exists>s' resp m'. serve_request dec tools i content s = Inr s'
     \<and> dir s' = remove_req i (write_resp i resp (dir s)) \<and> machine s' = m'
     \<and> isRunning s' = isRunning s
     \<and> m' = snd (processRequest dec tools content (machine s))
     \<and> (case fst (processRequest dec tools content (machine s)) of
           Inr r \<Rightarrow> resp = r
         | Inl crash \<Rightarrow> createError None INTERNAL_ERROR (Some (LStr (''Server crash: '' @ crash))) None = Inr resp)"
  by (cases "processRequest dec tools content (machine s)")
     (auto simp: serve_request_def createError_crash split: sum.splits)

lemma poll_loop_total: "\<exists>s'. poll_loop dec tools files processed s = Inr s'"
proof (induction files arbitrary: processed s)
  case Nil
  then show ?case by simp
next
  case (Cons i rest)
  show ?case
  proof (cases "processed \<ge> 2")
    case True
    then show ?thesis by simp
  next
    case False
    show ?thesis
    proof (cases "req_file (dir s) i")
      case None
      with False Cons.IH show ?thesis by simp
    next
      case (Some content)
      obtain s1 where "serve_request dec tools i content s = Inr s1"
        using serve_request_dir by blast
      with False Some Cons.IH show ?thesis by simp
    qed
  qed
qed

lemma poll_total: "\<exists>s'. poll dec tools s = Inr s'"
  by (simp add: poll_def poll_loop_total)

lemma findFiles_from_new:
  "\<exists>new. findFiles_from ex i misses files = files @ new \<and> sorted new \<and> distinct new
         \<and> (\<forall>x\<in>set new. i \<le> x \<and> x \<le> 10000 \<and> ex x)"
proof (induction ex i misses files rule: findFiles_from.induct)
  case (1 ex i misses files)
  show ?case
  proof (cases "i > 10000")
    case True
    then show ?thesis by (subst findFiles_from.simps) simp
  next
    case le: False
    show ?thesis
    proof (cases "ex i")
      case True
      from "1.IH"(1) [OF le True] obtain new where new:
        "findFiles_from ex (i + 1) 0 (files @ [i]) = (files @ [i]) @ new" "sorted new" "distinct new"
        "\<forall>x\<in>set new. i + 1 \<le> x \<and> x \<le> 10000 \<and> ex x" by blast
      have "findFiles_from ex i misses files = files @ (i # new)"
        using le True new(1) by (subst findFiles_from.simps) simp
      moreover have "sorted (i # new)" "distinct (i # new)"
        using new(2,3,4) by auto
      moreover have "\<forall>x\<in>set (i # new). i \<le> x \<and> x \<le> 10000 \<and> ex x"
        using new(4) le True by auto
      ultimately show ?thesis by blast
    next
      case False
      show ?thesis
      proof (cases "misses + 1 > 100")
        case True
        with le False show ?thesis by (subst findFiles_from.simps) simp
      next
        case m: False
        from "1.IH"(2) [OF le False m] obtain new where new:
          "findFiles_from ex (i + 1) (misses + 1) files = files @ new" "sorted new" "distinct new"
          "\<forall>x\<in>set new. i + 1 \<le> x \<and> x \<le> 10000 \<and> ex x" by blast
        have "findFiles_from ex i misses files = files @ new"
          using le False m new(1) by (subst findFiles_from.simps) simp
        moreover have "\<forall>x\<in>set new. i \<le> x \<and> x \<le> 10000 \<and> ex x"
          using new(4) by auto
        ultimately show ?thesis using new(2,3) by blast
      qed
    qed
  qed
qed

lemma findFilesByPrefix_found:
  "sorted (findFilesByPrefix ex)" "distinct (findFilesByPrefix ex)"
  "\<forall>x\<in>set (findFilesByPrefix ex). 1 \<le> x \<and> x \<le> 10000 \<and> ex x"
  using findFiles_from_new [of ex 1 0 "[]"] by (auto simp: findFilesByPrefix_def)

text \<open>Inside a run of 101 missing ids that starts after \<open>g\<close>, the scan ends.\<close>

lemma findFiles_from_in_gap:
  assumes "\<forall>x. g < x \<and> x \<le> g + 101 \<longrightarrow> \<not> ex x"
  shows "g < i \<Longrightarrow> i \<le> g + 101 \<Longrightarrow> i \<le> misses + g + 1 \<Longrightarrow> findFiles_from ex i misses files = files"
proof (induction "g + 101 - i" arbitrary: i misses)
  case 0
  then have "i = g + 101" by simp
  with 0 have "misses + 1 > 100" by simp
  moreover have "\<not> ex i" using assms 0 by simp
  ultimately show ?case by (subst findFiles_from.simps) simp
next
  case (Suc n)
  have nex: "\<not> ex i" using assms Suc.prems by simp
  show ?case
  proof (cases "misses + 1 > 100")
    case True
    with nex show ?thesis by (subst findFiles_from.simps) simp
  next
    case False
    have "findFiles_from ex (i + 1) (misses + 1) files = files"
      using Suc.hyps(1) [of "i + 1" "misses + 1"] Suc.hyps(2) Suc.prems by simp
    with nex False show ?thesis by (subst findFiles_from.simps) simp
  qed
qed

lemma findFiles_from_before_gap:
  "\<forall>x. g < x \<and> x \<le> g + 101 \<longrightarrow> \<not> ex x \<Longrightarrow> i \<le> g + 1 \<Longrightarrow>
   set (findFiles_from ex i misses files) \<subseteq> set files \<union> {i..g}"
proof (induction ex i misses files rule: findFiles_from.induct)
  case (1 ex i misses files)
  note gap = "1.prems"(1)
  show ?case
  proof (cases "i > 10000")
    case True
    then show ?thesis by (subst findFiles_from.simps) simp
  next
    case le: False
    show ?thesis
    proof (cases "ex i")
      case True
      have "i \<noteq> g + 1" using gap True by auto
      with "1.prems"(2) have ig: "i \<le> g" by simp
      have "set (findFiles_from ex (i + 1) 0 (files @ [i])) \<subseteq> set (files @ [i]) \<union> {i + 1..g}"
        using "1.IH"(1) [OF le True gap] ig by simp
      moreover have "findFiles_from ex i misses files = findFiles_from ex (i + 1) 0 (files @ [i])"
        using le True by (subst findFiles_from.simps) simp
      ultimately show ?thesis using ig by auto
    next
      case False
      show ?thesis
      proof (cases "misses + 1 > 100")
        case True
        with le False show ?thesis by (subst findFiles_from.simps) simp
      next
        case m: False
        have eq: "findFiles_from ex i misses files = findFiles_from ex (i + 1) (misses + 1) files"
          using le False m by (subst findFiles_from.simps) simp
        show ?thesis
        proof (cases "i \<le> g")
          case True
          then have "set (findFiles_from ex (i + 1) (misses + 1) files) \<subseteq> set files \<union> {i + 1..g}"
            using "1.IH"(2) [OF le False m gap] by simp
          with eq show ?thesis by auto
        next
          case False
          with "1.prems"(2) have "i = g + 1" by simp
          then have "findFiles_from ex (i + 1) (misses + 1) files = files"
            using findFiles_from_in_gap [OF gap, of "i + 1" "misses + 1" files] by simp
          with eq show ?thesis by simp
        qed
      qed
    qed
  qed
qed

lemma dir_simps [simp]:
  "req_file (remove_req i d) j = (if j = i then None else req_file d j)"
  "resp_file (remove_req i d) j = resp_file d j"
  "req_file (write_resp i r d) j = req_file d j"
  "resp_file (write_resp i r d) j = (if j = i then Some r else resp_file d j)"
  "req_file (write_req i c d) j = (if j = i then Some c else req_file d j)"
  "resp_file (write_req i c d) j = resp_file d j"
  "req_file (remove_resp i d) j = req_file d j"
  "resp_file (remove_resp i d) j = (if j = i then None else resp_file d j)"
  by (simp_all add: remove_req_def write_resp_def write_req_def remove_resp_def)


lemma poll_loop_frame:
  "poll_loop dec tools files p s = Inr s' \<Longrightarrow> i \<notin> set files \<Longrightarrow>
   req_file (dir s') i = req_file (dir s) i \<and> resp_file (dir s') i = resp_file (dir s) i"
proof (induction files arbitrary: p s)
  case Nil
  then show ?case by simp
next
  case (Cons j rest)
  show ?case
  proof (cases "p \<ge> 2")
    case True
    with Cons.prems show ?thesis by simp
  next
    case False
    show ?thesis
    proof (cases "req_file (dir s) j")
      case None
      with False Cons show ?thesis by simp
    next
      case (Some content)
      obtain s1 resp where s1: "serve_request dec tools j content s = Inr s1"
          "dir s1 = remove_req j (write_resp j resp (dir s))"
        using serve_request_dir [of dec tools j content s] by blast
      with False Some Cons.prems(1) have "poll_loop dec tools rest (p + 1) s1 = Inr s'" by simp
      from Cons.IH [OF this] Cons.prems(2) s1(2) show ?thesis by simp
    qed
  qed
qed






text \<open>
  Claim C7 as stated fails: a request file \<open>req_1.json\<close> that is empty is answered in
  \<open>resp_1.json\<close> with a parse error that carries no id, whatever the decoder.
\<close>

theorem response_id_counterexample:
  "\<forall>dec. \<exists>s' resp.
      poll dec example_tools
        \<lparr>isRunning = True, dir = \<lparr>req_file = [1 \<mapsto> ''''], resp_file = Map.empty\<rparr>,
         machine = \<lparr>world = 0, calls = []\<rparr>\<rparr> = Inr s'
    \<and> resp_file (dir s') 1 = Some resp \<and> req_file (dir s') 1 = None
    \<and> envelope_id resp = None \<and> envelope_id resp \<noteq> Some (LNum 1)
    \<and> envelope_error_code resp = Some (LNum (- 32700))"
  by (simp add: poll_def findFilesByPrefix_def findFiles_from.simps serve_request_def
      processRequest_def parseRequest_def createError_parse PARSE_ERROR_def [symmetric])

section \<open>Properties of the bridge\<close>

lemma seen_shift: "seen E (Suc k) (other E k d) n = seen E k d (Suc n)"
  by (induction n) simp_all

lemma await_response_timeout:
  assumes "\<forall>n\<le>N. resp_file (seen E k d n) i = None"
    and "\<forall>n<N. clock E (k + n) - start E \<le> timeout"
    and "clock E (k + N) - start E > timeout"
  shows "await_response E i meth timeout k d =
           Some (Inl (TimedOut meth i timeout), remove_req i (seen E k d N))"
  using assms
proof (induction N arbitrary: k d)
  case 0
  then show ?case by (subst await_response.simps) (simp add: Let_def)
next
  case (Suc N)
  have none: "resp_file (other E k d) i = None" using Suc.prems(1) [rule_format, of 0] by simp
  have early: "\<not> clock E k - start E > timeout" using Suc.prems(2) [rule_format, of 0] by simp
  have p1: "\<forall>n\<le>N. resp_file (seen E (k + 1) (other E k d) n) i = None"
  proof (intro allI impI)
    fix n assume "n \<le> N"
    then have "Suc n \<le> Suc N" by simp
    from Suc.prems(1) [rule_format, OF this]
    show "resp_file (seen E (k + 1) (other E k d) n) i = None" by (simp add: seen_shift)
  qed
  have p2: "\<forall>n<N. clock E (k + 1 + n) - start E \<le> timeout"
    using Suc.prems(2) [rule_format, of "Suc _"] by simp
  have p3: "clock E (k + 1 + N) - start E > timeout" using Suc.prems(3) by simp
  have "await_response E i meth timeout k d = await_response E i meth timeout (k + 1) (other E k d)"
    using none early by (subst await_response.simps) (simp add: Let_def)
  also have "\<dots> = Some (Inl (TimedOut meth i timeout), remove_req i (seen E (k + 1) (other E k d) N))"
    using Suc.IH [OF p1 p2 p3] .
  finally show ?case by (simp add: seen_shift)
qed

lemma sendRequest_timeout:
  assumes "connected c"
    and "\<forall>n\<le>N. resp_file (seen E 0 (write_req (nextId c) text d) n) (nextId c) = None"
    and "\<forall>n<N. clock E n - start E \<le> (case opt of None \<Rightarrow> requestTimeout | Some t \<Rightarrow> t)"
    and "clock E N - start E > (case opt of None \<Rightarrow> requestTimeout | Some t \<Rightarrow> t)"
    and "text = stringify E (JObj [(''jsonrpc'', JStr ''2.0''), (''id'', JNum (int (nextId c))),
                                   (''method'', JStr meth), (''params'', params)])"
  shows "sendRequest E c meth params opt d =
           Some (Inl (TimedOut meth (nextId c) (case opt of None \<Rightarrow> requestTimeout | Some t \<Rightarrow> t)),
                 c\<lparr>nextId := nextId c + 1\<rparr>,
                 remove_req (nextId c) (seen E 0 (write_req (nextId c) text d) N))"
proof -
  have "await_response E (nextId c) meth (case opt of None \<Rightarrow> requestTimeout | Some t \<Rightarrow> t) 0
          (write_req (nextId c) text d) =
        Some (Inl (TimedOut meth (nextId c) (case opt of None \<Rightarrow> requestTimeout | Some t \<Rightarrow> t)),
              remove_req (nextId c) (seen E 0 (write_req (nextId c) text d) N))"
    using await_response_timeout [of N E 0 "write_req (nextId c) text d" "nextId c"
        "case opt of None \<Rightarrow> requestTimeout | Some t \<Rightarrow> t" meth] assms(2-4)
    by simp
  with assms(1,5) show ?thesis by (simp add: sendRequest_def Let_def)
qed

lemma clock_unbounded:
  assumes "\<forall>n. clock E (Suc n) \<ge> clock E n + pollInterval"
  shows "\<exists>N. clock E N - start E > timeout \<and> (\<forall>n<N. clock E n - start E \<le> timeout)"
proof -
  have grow: "clock E n \<ge> clock E 0 + int n" for n
  proof (induction n)
    case 0
    then show ?case by simp
  next
    case (Suc n)
    have "clock E (Suc n) \<ge> clock E n + 100" using assms by (simp add: pollInterval_def)
    with Suc show ?case by simp
  qed
  define M where "M = nat (timeout + start E - clock E 0) + 1"
  have "int M \<ge> timeout + start E - clock E 0 + 1" by (simp add: M_def)
  then have "clock E M - start E > timeout" using grow [of M] by linarith
  then have ex: "\<exists>N. clock E N - start E > timeout" by blast
  define N where "N = (LEAST N. clock E N - start E > timeout)"
  have "clock E N - start E > timeout" unfolding N_def using ex by (rule LeastI_ex)
  moreover have "\<forall>n<N. clock E n - start E \<le> timeout"
    unfolding N_def using not_less_Least by (metis not_le)
  ultimately show ?thesis by blast
qed

text \<open>
  Claim C4. A connected client sends a request and no response file appears. At the
  first round \<open>N\<close> of the loop at which the time elapsed exceeds the timeout (that of
  the call, or \<open>requestTimeout\<close>), \<open>sendRequest\<close> fails with the timeout error, and in
  the directory it leaves the request file is gone. Since the clock advances by at
  least \<open>pollInterval\<close> a round, such a round comes: the call does return.
\<close>

theorem sendRequest_times_out:
  fixes E :: "'r env"
  defines "timeout \<equiv> (\<lambda>opt. case opt of None \<Rightarrow> requestTimeout | Some t \<Rightarrow> t)"
    and "written \<equiv> (\<lambda>c meth params d.
           write_req (nextId c)
             (stringify E (JObj [(''jsonrpc'', JStr ''2.0''), (''id'', JNum (int (nextId c))),
                                 (''method'', JStr meth), (''params'', params)])) d)"
  assumes "connected c"
  shows "((\<forall>n\<le>N. resp_file (seen E 0 (written c meth params d) n) (nextId c) = None)
          \<and> (\<forall>n<N. clock E n - start E \<le> timeout opt) \<and> clock E N - start E > timeout opt \<longrightarrow>
          sendRequest E c meth params opt d =
            Some (Inl (TimedOut meth (nextId c) (timeout opt)), c\<lparr>nextId := nextId c + 1\<rparr>,
                  remove_req (nextId c) (seen E 0 (written c meth params d) N))
        \<and> req_file (remove_req (nextId c) (seen E 0 (written c meth params d) N)) (nextId c) = None)
      \<and> ((\<forall>n. resp_file (seen E 0 (written c meth params d) n) (nextId c) = None)
          \<and> (\<forall>n. clock E (Suc n) \<ge> clock E n + pollInterval) \<longrightarrow>
          (\<exists>d'. sendRequest E c meth params opt d =
                  Some (Inl (TimedOut meth (nextId c) (timeout opt)), c\<lparr>nextId := nextId c + 1\<rparr>, d')
               \<and> req_file d' (nextId c) = None))"
proof (intro conjI impI)
  assume a: "(\<forall>n\<le>N. resp_file (seen E 0 (written c meth params d) n) (nextId c) = None)
          \<and> (\<forall>n<N. clock E n - start E \<le> timeout opt) \<and> clock E N - start E > timeout opt"
  then show "sendRequest E c meth params opt d =
            Some (Inl (TimedOut meth (nextId c) (timeout opt)), c\<lparr>nextId := nextId c + 1\<rparr>,
                  remove_req (nextId c) (seen E 0 (written c meth params d) N))"
    unfolding timeout_def written_def
    using sendRequest_timeout [OF assms(3), of N E _ d opt meth params] by blast
  show "req_file (remove_req (nextId c) (seen E 0 (written c meth params d) N)) (nextId c) = None"
    by simp
next
  assume a: "(\<forall>n. resp_file (seen E 0 (written c meth params d) n) (nextId c) = None)
          \<and> (\<forall>n. clock E (Suc n) \<ge> clock E n + pollInterval)"
  then obtain N where N: "clock E N - start E > timeout opt" "\<forall>n<N. clock E n - start E \<le> timeout opt"
    using clock_unbounded [of E "timeout opt"] by blast
  have "sendRequest E c meth params opt d =
            Some (Inl (TimedOut meth (nextId c) (timeout opt)), c\<lparr>nextId := nextId c + 1\<rparr>,
                  remove_req (nextId c) (seen E 0 (written c meth params d) N))"
    using a N unfolding timeout_def written_def
    using sendRequest_timeout [OF assms(3), of N E _ d opt meth params] by blast
  then show "\<exists>d'. sendRequest E c meth params opt d =
                  Some (Inl (TimedOut meth (nextId c) (timeout opt)), c\<lparr>nextId := nextId c + 1\<rparr>, d')
               \<and> req_file d' (nextId c) = None"
    by simp
qed

lemma example_seen_resp: "resp_file (seen example_env k d n) i = resp_file d i"
  by (induction n) (simp_all add: example_env_def)

theorem sendRequest_times_out_witness:
  "connected \<lparr>nextId = 1, connected = True\<rparr>
 \<and> clock example_env 2 - start example_env \<le> 250
 \<and> clock example_env 3 - start example_env > 250
 \<and> sendRequest example_env \<lparr>nextId = 1, connected = True\<rparr> ''document.getInfo'' (JObj []) (Some 250)
       \<lparr>req_file = Map.empty, resp_file = Map.empty\<rparr> =
     Some (Inl (TimedOut ''document.getInfo'' 1 250), \<lparr>nextId = 2, connected = True\<rparr>,
           remove_req 1 (seen example_env 0
             (write_req 1 ''request'' \<lparr>req_file = Map.empty, resp_file = Map.empty\<rparr>) 3))
 \<and> req_file (remove_req 1 (seen example_env 0
             (write_req 1 ''request'' \<lparr>req_file = Map.empty, resp_file = Map.empty\<rparr>) 3)) 1 = None
 \<and> (\<exists>d'. sendRequest example_env \<lparr>nextId = 1, connected = True\<rparr> ''document.getInfo'' (JObj []) None
             \<lparr>req_file = Map.empty, resp_file = Map.empty\<rparr> =
           Some (Inl (TimedOut ''document.getInfo'' 1 10000), \<lparr>nextId = 2, connected = True\<rparr>, d')
         \<and> req_file d' 1 = None)"
proof -
  let ?c = "\<lparr>nextId = 1, connected = True\<rparr>"
  let ?d = "\<lparr>req_file = Map.empty, resp_file = Map.empty\<rparr> :: string ipc"
  have h0: "connected ?c" by simp
  have h1: "\<forall>n. resp_file (seen example_env 0 (write_req (nextId ?c)
        (stringify example_env (JObj [(''jsonrpc'', JStr ''2.0''), (''id'', JNum (int (nextId ?c))),
           (''method'', JStr ''document.getInfo''), (''params'', JObj [])])) ?d) n) (nextId ?c) = None"
    by (simp add: example_seen_resp)
  have h2: "\<forall>n<3. clock example_env n - start example_env \<le> (case Some 250 of None \<Rightarrow> requestTimeout | Some t \<Rightarrow> t)"
  proof (intro allI impI)
    fix n :: nat assume "n < 3"
    then have "int n \<le> 2" by simp
    then show "clock example_env n - start example_env \<le> (case Some 250 of None \<Rightarrow> requestTimeout | Some t \<Rightarrow> t)"
      by (simp add: example_env_def)
  qed
  have h3: "clock example_env 3 - start example_env > (case Some 250 of None \<Rightarrow> requestTimeout | Some t \<Rightarrow> t)"
    by (simp add: example_env_def)
  have h4: "\<forall>n. clock example_env (Suc n) \<ge> clock example_env n + pollInterval"
    by (simp add: example_env_def pollInterval_def)
  have s: "stringify example_env v = ''request''" for v by (simp add: example_env_def)
  from sendRequest_times_out [OF h0, of 3 example_env "''document.getInfo''" "JObj []" ?d "Some 250"]
    h1 h2 h3
  have c1: "sendRequest example_env ?c ''document.getInfo'' (JObj []) (Some 250) ?d =
     Some (Inl (TimedOut ''document.getInfo'' 1 250), \<lparr>nextId = 2, connected = True\<rparr>,
           remove_req 1 (seen example_env 0 (write_req 1 ''request'' ?d) 3))"
    by (simp add: s)
  from sendRequest_times_out [OF h0, of 0 example_env "''document.getInfo''" "JObj []" ?d None]
    h1 h4
  have c2: "\<exists>d'. sendRequest example_env ?c ''document.getInfo'' (JObj []) None ?d =
           Some (Inl (TimedOut ''document.getInfo'' 1 10000), \<lparr>nextId = 2, connected = True\<rparr>, d')
         \<and> req_file d' 1 = None"
    by (simp add: s requestTimeout_def numeral_2_eq_2)
  have c3: "clock example_env 2 - start example_env \<le> 250" "clock example_env 3 - start example_env > 250"
    by (simp_all add: example_env_def)
  from c1 c2 c3 show ?thesis by simp
qed



section \<open>Batch requests through the server\<close>

lemma isAllowed_batch: "isAllowed ''batch.execute''"
  by (simp add: isAllowed_def allowedMethods_def)

lemma schema_batch: "map_of paramSchemas ''batch.execute'' = Some [(''operations'', ''table'')]"
  by (simp add: paramSchemas_def)

lemma validateParams_batch:
  "validateParams ''batch.execute'' (Some p) =
     (if lua_type (Some p) \<noteq> ''table'' then Inl ''Missing params: expected a table of parameters''
      else case field p ''operations'' of
        None \<Rightarrow> Inl ''Missing required parameter: operations''
      | Some ops \<Rightarrow>
          if lua_type (Some ops) \<noteq> ''table''
          then Inl (''Invalid parameter type for '' @ [CHR 0x27] @ ''operations'' @ [CHR 0x27]
                    @ '': expected table, got '' @ lua_type (Some ops))
          else Inr ())"
  by (simp add: validateParams_def schema_batch split: option.splits)

lemma field_Some_table:
  assumes "field p k = Some v"
  shows "lua_type (Some p) = ''table''" "truthy (Some p)" "indexable p" "params_or_empty (Some p) = p"
  using assms by (cases p; simp add: indexable_def params_or_empty_def)+

lemma processRequest_batch:
  assumes "parseRequest dec content = Inr req" "req_method req = ''batch.execute''"
    and "req_params req = Some params" "field params ''operations'' = Some ops"
    and "lua_type (Some ops) = ''table''"
  shows "processRequest dec tools content m =
     (case batch_execute tools (m\<lparr>calls := calls m @ [(''batch.execute'', params)]\<rparr>) params of
        (Raises e, m') \<Rightarrow>
          (createError (Some (req_id req)) INTERNAL_ERROR (Some (LStr (''Handler error: '' @ e))) None, m')
      | (Returns result handlerErr, m') \<Rightarrow>
          if result = None \<and> truthy handlerErr
          then (createError (Some (req_id req)) INTERNAL_ERROR handlerErr None, m')
          else (createResponse (Some (req_id req)) result, m'))"
  using assms field_Some_table [OF assms(4)]
  by (simp add: processRequest_def Let_def isAllowed_batch validateParams_batch handlers_def
      pcall_handler_def split: prod.splits houtcome.splits)

text \<open>
  Claim C8. A batch of more than 50 operations (say 51) is rejected whole, before any
  operation runs: \<open>batch.execute\<close> returns \<open>nil\<close> and the message, with the machine
  as it was, whatever tools are registered; \<open>processRequest\<close> answers with a single
  top-level error, and the call log holds the call of \<open>batch.execute\<close> itself and no
  call of a handler of an operation. No result array is produced.
\<close>

theorem batch_too_many_rejected:
  "(field params ''operations'' = Some (LArr ops) \<and> length ops > 50 \<longrightarrow>
      batch_execute tools m params =
        (Returns None (Some (LStr (''Too many operations: '' @ tostring_nat (length ops)
                                   @ '' (max 50)''))), m))
 \<and> (parseRequest dec content = Inr req \<and> req_method req = ''batch.execute''
      \<and> req_params req = Some params \<and> field params ''operations'' = Some (LArr ops)
      \<and> length ops > 50 \<longrightarrow>
      processRequest dec tools content m =
        (createError (Some (req_id req)) INTERNAL_ERROR
           (Some (LStr (''Too many operations: '' @ tostring_nat (length ops) @ '' (max 50)''))) None,
         m\<lparr>calls := calls m @ [(''batch.execute'', params)]\<rparr>))
 \<and> tostring_nat 51 = ''51''"
proof (intro conjI impI)
  assume "field params ''operations'' = Some (LArr ops) \<and> length ops > 50"
  then show "batch_execute tools m params =
        (Returns None (Some (LStr (''Too many operations: '' @ tostring_nat (length ops)
                                   @ '' (max 50)''))), m)"
    by (simp add: batch_execute_too_many)
next
  assume a: "parseRequest dec content = Inr req \<and> req_method req = ''batch.execute''
      \<and> req_params req = Some params \<and> field params ''operations'' = Some (LArr ops)
      \<and> length ops > 50"
  then have "processRequest dec tools content m =
     (case batch_execute tools (m\<lparr>calls := calls m @ [(''batch.execute'', params)]\<rparr>) params of
        (Raises e, m') \<Rightarrow>
          (createError (Some (req_id req)) INTERNAL_ERROR (Some (LStr (''Handler error: '' @ e))) None, m')
      | (Returns result handlerErr, m') \<Rightarrow>
          if result = None \<and> truthy handlerErr
          then (createError (Some (req_id req)) INTERNAL_ERROR handlerErr None, m')
          else (createResponse (Some (req_id req)) result, m'))"
    using processRequest_batch [of dec content req params "LArr ops" tools m] by simp
  with a show "processRequest dec tools content m =
        (createError (Some (req_id req)) INTERNAL_ERROR
           (Some (LStr (''Too many operations: '' @ tostring_nat (length ops) @ '' (max 50)''))) None,
         m\<lparr>calls := calls m @ [(''batch.execute'', params)]\<rparr>)"
    by (simp add: batch_execute_too_many)
next
  show "tostring_nat 51 = ''51''" by (simp add: tostring_nat.simps digit_def)
qed

theorem batch_too_many_rejected_witness:
  "length (replicate 51 (LObj [])) > 50
 \<and> batch_execute example_tools \<lparr>world = 0, calls = []\<rparr>
       (LObj [(''operations'', LArr (replicate 51 (LObj [])))]) =
     (Returns None (Some (LStr ''Too many operations: 51 (max 50)'')), \<lparr>world = 0, calls = []\<rparr>)
 \<and> parseRequest example_dec ''batch of 51'' =
     Inr \<lparr>req_id = LNum 5, req_method = ''batch.execute'',
          req_params = Some (LObj [(''operations'', LArr (replicate 51 (LObj [])))])\<rparr>
 \<and> processRequest example_dec example_tools ''batch of 51'' \<lparr>world = 0, calls = []\<rparr> =
     (createError (Some (LNum 5)) (- 32603) (Some (LStr ''Too many operations: 51 (max 50)'')) None,
      \<lparr>world = 0, calls = [(''batch.execute'', LObj [(''operations'', LArr (replicate 51 (LObj [])))])]\<rparr>)"
proof -
  let ?params = "LObj [(''operations'', LArr (replicate 51 (LObj [])))]"
  let ?req = "\<lparr>req_id = LNum 5, req_method = ''batch.execute'', req_params = Some ?params\<rparr>"
  let ?m = "\<lparr>world = 0 :: nat, calls = []\<rparr>"
  have h1: "field ?params ''operations'' = Some (LArr (replicate 51 (LObj [])))" by simp
  have h2: "length (replicate 51 (LObj [])) > 50" by simp
  have h3: "parseRequest example_dec ''batch of 51'' = Inr ?req"
    by (simp add: parseRequest_def example_dec_def)
  have h4: "req_method ?req = ''batch.execute''" "req_params ?req = Some ?params" "req_id ?req = LNum 5"
    by simp_all
  note inst = batch_too_many_rejected [where params = ?params and ops = "replicate 51 (LObj [])"
      and tools = example_tools and m = ?m and dec = example_dec and content = "''batch of 51''"
      and req = ?req]
  from inst h1 h2 h3 h4 show ?thesis
    by (simp add: INTERNAL_ERROR_def)
qed

lemma batch_op_outcomes:
  assumes "\<not> stoppedEarly st"
  shows "op_method op = None \<Longrightarrow>
           batch_op tools soe i op st =
             op_failed soe i (- 32600)
               (Some (LStr (''Invalid operation at index '' @ tostring_nat i
                            @ '': must have a string '' @ [CHR 0x27] @ ''method'' @ [CHR 0x27]))) st"
    and "op_method op = Some meth \<Longrightarrow> meth \<in> set disallowedInBatch \<Longrightarrow>
           batch_op tools soe i op st =
             op_failed soe i (- 32601) (Some (LStr (''Method not allowed in batch: '' @ meth))) st"
    and "op_method op = Some meth \<Longrightarrow> meth \<notin> set disallowedInBatch \<Longrightarrow> \<not> isAllowed meth \<Longrightarrow>
           batch_op tools soe i op st =
             op_failed soe i (- 32601) (Some (LStr (''Method not found: '' @ meth))) st"
    and "op_method op = Some meth \<Longrightarrow> meth \<notin> set disallowedInBatch \<Longrightarrow> isAllowed meth \<Longrightarrow>
         validateParams meth (Some (params_or_empty (field op ''params''))) = Inl e \<Longrightarrow>
           batch_op tools soe i op st = op_failed soe i (- 32602) (Some (LStr e)) st"
    and "op_method op = Some meth \<Longrightarrow> meth \<notin> set disallowedInBatch \<Longrightarrow> isAllowed meth \<Longrightarrow>
         validateParams meth (Some (params_or_empty (field op ''params''))) = Inr () \<Longrightarrow>
         tools meth = None \<Longrightarrow>
           batch_op tools soe i op st =
             op_failed soe i (- 32601) (Some (LStr (''No handler registered for: '' @ meth))) st"
    and "op_method op = Some meth \<Longrightarrow> meth \<notin> set disallowedInBatch \<Longrightarrow> isAllowed meth \<Longrightarrow>
         validateParams meth (Some (params_or_empty (field op ''params''))) = Inr () \<Longrightarrow>
         tools meth = Some h \<Longrightarrow>
         pcall_tool h meth (params_or_empty (field op ''params'')) (mach st) = (Raises e, m') \<Longrightarrow>
           batch_op tools soe i op st =
             op_failed soe i (- 32603) (Some (LStr (''Handler error: '' @ e))) (st\<lparr>mach := m'\<rparr>)"
    and "op_method op = Some meth \<Longrightarrow> meth \<notin> set disallowedInBatch \<Longrightarrow> isAllowed meth \<Longrightarrow>
         validateParams meth (Some (params_or_empty (field op ''params''))) = Inr () \<Longrightarrow>
         tools meth = Some h \<Longrightarrow>
         pcall_tool h meth (params_or_empty (field op ''params'')) (mach st) = (Returns None err, m') \<Longrightarrow>
         truthy err \<Longrightarrow>
           batch_op tools soe i op st = op_failed soe i (- 32603) err (st\<lparr>mach := m'\<rparr>)"
  using assms
  by (auto simp: batch_op_def op_method_def Let_def split: option.splits lua.splits if_splits)

lemma batch_execute_structural:
  assumes "indexable params"
  shows "(\<exists>msg. fst (batch_execute tools m params) = Returns None (Some msg)) \<longleftrightarrow>
         (\<forall>ops. field params ''operations'' = Some ops \<longrightarrow>
                lua_type (Some ops) \<noteq> ''table'' \<or> len ops = 0 \<or> len ops > 50)"
  using assms
  by (auto simp: batch_execute_def Let_def MAX_OPERATIONS_def split: option.splits)

lemma failure_encodable:
  "encodable (failure i code message) \<longleftrightarrow> (\<forall>v. message = Some v \<longrightarrow> encodable v)"
  by (cases message) (simp_all add: failure_def)

lemma success_encodable:
  "encodable (success i result) \<longleftrightarrow> (\<forall>v. result = Some v \<longrightarrow> encodable v)"
  by (cases result) (simp_all add: success_def)

lemma pcall_tool_out:
  "pcall_tool h meth p m = (out, m') \<Longrightarrow> fst (h (world m) p) = out"
  by (auto simp: pcall_tool_def split: prod.splits)

lemma batch_op_encodable:
  assumes ok: "\<And>meth h w p r e v. tools meth = Some h \<Longrightarrow> fst (h w p) = Returns r e
                 \<Longrightarrow> r = Some v \<or> e = Some v \<Longrightarrow> encodable v"
    and enc: "list_all encodable (results st)"
  shows "list_all encodable (results (batch_op tools soe i op st))"
proof (cases "stoppedEarly st")
  case True
  with enc show ?thesis by (simp add: batch_op_def failure_encodable)
next
  case run: False
  show ?thesis
  proof (cases "op_method op")
    case None
    with run enc show ?thesis by (simp add: batch_op_outcomes(1) failure_encodable)
  next
    case (Some meth)
    let ?p = "params_or_empty (field op ''params'')"
    consider (deny) "meth \<in> set disallowedInBatch"
      | (unknown) "meth \<notin> set disallowedInBatch" "\<not> isAllowed meth"
      | (invalid) e where "meth \<notin> set disallowedInBatch" "isAllowed meth"
          "validateParams meth (Some ?p) = Inl e"
      | (missing) "meth \<notin> set disallowedInBatch" "isAllowed meth"
          "validateParams meth (Some ?p) = Inr ()" "tools meth = None"
      | (called) h where "meth \<notin> set disallowedInBatch" "isAllowed meth"
          "validateParams meth (Some ?p) = Inr ()" "tools meth = Some h"
      by (cases "validateParams meth (Some ?p)"; cases "tools meth") auto
    then show ?thesis
    proof cases
      case deny
      with run Some enc show ?thesis by (simp add: batch_op_outcomes(2) failure_encodable)
    next
      case unknown
      with run Some enc show ?thesis by (simp add: batch_op_outcomes(3) failure_encodable)
    next
      case invalid
      with run Some enc show ?thesis by (simp add: batch_op_outcomes(4) failure_encodable)
    next
      case missing
      with run Some enc show ?thesis by (simp add: batch_op_outcomes(5) failure_encodable)
    next
      case called
      obtain out m' where call: "pcall_tool h meth ?p (mach st) = (out, m')"
        by (cases "pcall_tool h meth ?p (mach st)")
      then have out: "fst (h (world (mach st)) ?p) = out" by (rule pcall_tool_out)
      show ?thesis
      proof (cases out)
        case (Raises e)
        with run Some called call enc show ?thesis by (simp add: batch_op_outcomes(6) failure_encodable)
      next
        case (Returns r e)
        have r: "\<And>v. r = Some v \<Longrightarrow> encodable v"
          and e: "\<And>v. e = Some v \<Longrightarrow> encodable v"
          using ok [OF called(4)] out Returns by blast+
        show ?thesis
        proof (cases "r = None \<and> truthy e")
          case True
          then have "pcall_tool h meth ?p (mach st) = (Returns None e, m')" and te: "truthy e"
            using call Returns by simp_all
          then have "batch_op tools soe i op st = op_failed soe i (- 32603) e (st\<lparr>mach := m'\<rparr>)"
            using run Some called
              batch_op_outcomes(7) [where st = st and op = op and meth = meth and tools = tools
                and h = h and m' = m' and err = e and soe = soe and i = i]
            by blast
          with enc e show ?thesis by (simp add: failure_encodable)
        next
          case False
          then have "results (batch_op tools soe i op st) = results st @ [success i r]"
            using run Some called call Returns
            by (auto simp: batch_op_def op_method_def Let_def
                split: option.splits lua.splits if_splits)
          with enc r show ?thesis by (simp add: success_encodable)
        qed
      qed
    qed
  qed
qed

lemma batch_loop_encodable:
  assumes ok: "\<And>meth h w p r e v. tools meth = Some h \<Longrightarrow> fst (h w p) = Returns r e
                 \<Longrightarrow> r = Some v \<or> e = Some v \<Longrightarrow> encodable v"
  shows "list_all encodable (results st)
         \<Longrightarrow> list_all encodable (results (batch_loop tools soe i ops st))"
proof (induction ops arbitrary: i st)
  case Nil
  then show ?case by simp
next
  case (Cons op ops)
  show ?case
    using Cons.IH [OF batch_op_encodable [OF ok Cons.prems]] by simp
qed

lemma batch_reply_encodable:
  "list_all encodable (results st) \<Longrightarrow> encodable (batch_reply n st)"
  by (simp add: batch_reply_def)

section \<open>Requests beyond a gap of missing ids\<close>

lemma findFilesByPrefix_gap:
  assumes "\<forall>x. g < x \<and> x \<le> g + 101 \<longrightarrow> \<not> ex x"
  shows "\<forall>x\<in>set (findFilesByPrefix ex). x \<le> g"
  using findFiles_from_before_gap [OF assms, of 1 0 "[]"]
  by (auto simp: findFilesByPrefix_def)

lemma poll_beyond_gap:
  assumes "\<forall>x. g < x \<and> x \<le> g + 101 \<longrightarrow> req_file (dir s) x = None"
    and "poll dec tools s = Inr s'" and "g < x"
  shows "req_file (dir s') x = req_file (dir s) x \<and> resp_file (dir s') x = resp_file (dir s) x"
proof (cases "isRunning s")
  case False
  with assms(2) show ?thesis by (simp add: poll_def)
next
  case True
  let ?files = "findFilesByPrefix (\<lambda>i. req_file (dir s) i \<noteq> None)"
  have "\<forall>y\<in>set ?files. y \<le> g"
    using findFilesByPrefix_gap [of g "\<lambda>i. req_file (dir s) i \<noteq> None"] assms(1) by simp
  with assms(3) have "x \<notin> set ?files" by auto
  moreover have "poll_loop dec tools ?files 0 s = Inr s'"
    using assms(2) True by (simp add: poll_def)
  ultimately show ?thesis using poll_loop_frame by blast
qed

lemma ticks_beyond_gap:
  "\<forall>x. g < x \<and> x \<le> g + 101 \<longrightarrow> req_file (dir s) x = None \<Longrightarrow>
   ticks dec tools n s = Inr s' \<Longrightarrow> g < x \<Longrightarrow>
   req_file (dir s') x = req_file (dir s) x \<and> resp_file (dir s') x = resp_file (dir s) x"
proof (induction n arbitrary: s)
  case 0
  then show ?case by simp
next
  case (Suc n)
  obtain s1 where s1: "poll dec tools s = Inr s1" using poll_total by blast
  have same: "req_file (dir s1) y = req_file (dir s) y \<and> resp_file (dir s1) y = resp_file (dir s) y"
    if "g < y" for y
    using poll_beyond_gap [OF Suc.prems(1) s1 that] .
  then have gap1: "\<forall>y. g < y \<and> y \<le> g + 101 \<longrightarrow> req_file (dir s1) y = None"
    using Suc.prems(1) by simp
  have "ticks dec tools n s1 = Inr s'" using Suc.prems(2) s1 by simp
  from Suc.IH [OF gap1 this Suc.prems(3)] same [OF Suc.prems(3)] show ?case by simp
qed

lemma sendRequest_unanswered:
  fixes E :: "encoded env" and tools :: "string \<rightharpoonup> 'w tool"
  assumes "connected c" and "g + 101 < nextId c"
    and "\<forall>x. g < x \<and> x \<le> g + 101 \<longrightarrow> req_file d x = None"
    and "resp_file d (nextId c) = None"
    and "\<forall>k d'. \<exists>n (s0 :: 'w server) s'. dir s0 = d' \<and> ticks dec tools n s0 = Inr s' \<and> other E k d' = dir s'"
    and "\<forall>n. clock E (Suc n) \<ge> clock E n + pollInterval"
  shows "\<exists>d'. sendRequest E c meth params opt d =
           Some (Inl (TimedOut meth (nextId c) (case opt of None \<Rightarrow> requestTimeout | Some t \<Rightarrow> t)),
                 c\<lparr>nextId := nextId c + 1\<rparr>, d')"
proof -
  let ?i = "nextId c"
  define body where "body = stringify E (JObj [(''jsonrpc'', JStr ''2.0''), (''id'', JNum (int ?i)),
                                   (''method'', JStr meth), (''params'', params)])"
  let ?d1 = "write_req ?i body d"
  define inv where "inv = (\<lambda>d' :: encoded ipc.
      (\<forall>x. g < x \<and> x \<le> g + 101 \<longrightarrow> req_file d' x = None) \<and> resp_file d' ?i = None)"
  have step: "inv (other E k d')" if "inv d'" for k d'
  proof -
    obtain n and s0 :: "'w server" and s' where s: "dir s0 = d'" "ticks dec tools n s0 = Inr s'"
        "other E k d' = dir s'"
      using assms(5) by blast
    have gap: "\<forall>x. g < x \<and> x \<le> g + 101 \<longrightarrow> req_file (dir s0) x = None"
      using that s(1) by (simp add: inv_def)
    have "req_file (dir s') x = req_file (dir s0) x \<and> resp_file (dir s') x = resp_file (dir s0) x"
      if "g < x" for x
      using ticks_beyond_gap [OF gap s(2) that] .
    then show ?thesis using that s(1,3) assms(2) by (simp add: inv_def)
  qed
  have "inv ?d1" using assms(2,3,4) by (auto simp: inv_def)
  have seen: "inv (seen E 0 ?d1 n)" for n
    by (induction n) (simp_all add: step \<open>inv ?d1\<close>)
  then have none: "\<forall>n\<le>N. resp_file (seen E 0 ?d1 n) ?i = None" for N
    by (simp add: inv_def)
  obtain N where N: "clock E N - start E > (case opt of None \<Rightarrow> requestTimeout | Some t \<Rightarrow> t)"
      "\<forall>n<N. clock E n - start E \<le> (case opt of None \<Rightarrow> requestTimeout | Some t \<Rightarrow> t)"
    using clock_unbounded [OF assms(6)] by blast
  from sendRequest_timeout [OF assms(1) none N(2) N(1) body_def] show ?thesis by blast
qed

lemma lone_101: "findFilesByPrefix (\<lambda>x. x = 101) = [101]"
  by (simp add: findFilesByPrefix_def findFiles_from.simps)

lemma ticks_total: "\<exists>s'. ticks dec tools n s = Inr s'"
proof (induction n arbitrary: s)
  case 0
  then show ?case by simp
next
  case (Suc n)
  obtain s1 where "poll dec tools s = Inr s1" using poll_total by blast
  with Suc show ?case by simp
qed

text \<open>
  Claim C9. The scan probes the ids from 1 up, returns only ids of files that exist, none
  above 10000, and ends for good inside a run of 101 missing ids: when the ids
  \<open>g + 1 .. g + 101\<close> are all missing it returns no id above \<open>g\<close>; when \<open>1 .. 101\<close>
  are missing it returns the empty list, as for a lone \<open>req_150.json\<close> (a run of 100
  missing ids is passed: a lone \<open>req_101.json\<close> is found). A request file beyond
  such a run is then untouched by any number of ticks, and no response to it appears;
  a client that waits for it, with the server ticking as the other side, ends in the
  timeout error.
\<close>

theorem scan_ends_in_gap:
  fixes E :: "encoded env" and tools :: "string \<rightharpoonup> 'w tool"
  shows "(\<forall>x\<in>set (findFilesByPrefix ex). 1 \<le> x \<and> x \<le> 10000 \<and> ex x)
 \<and> ((\<forall>x. g < x \<and> x \<le> g + 101 \<longrightarrow> \<not> ex x) \<longrightarrow> (\<forall>x\<in>set (findFilesByPrefix ex). x \<le> g))
 \<and> ((\<forall>x. 1 \<le> x \<and> x \<le> 101 \<longrightarrow> \<not> ex x) \<longrightarrow> findFilesByPrefix ex = [])
 \<and> findFilesByPrefix (\<lambda>x. x = 150) = []
 \<and> findFilesByPrefix (\<lambda>x. x = 101) = [101]
 \<and> ((\<forall>x. g < x \<and> x \<le> g + 101 \<longrightarrow> req_file (dir s) x = None)
      \<and> ticks dec tools n s = Inr s' \<and> g < i \<longrightarrow>
      req_file (dir s') i = req_file (dir s) i \<and> resp_file (dir s') i = resp_file (dir s) i)
 \<and> (connected c \<and> g + 101 < nextId c
      \<and> (\<forall>x. g < x \<and> x \<le> g + 101 \<longrightarrow> req_file d x = None)
      \<and> resp_file d (nextId c) = None
      \<and> (\<forall>k d'. \<exists>n (s0 :: 'w server) s'.
             dir s0 = d' \<and> ticks dec tools n s0 = Inr s' \<and> other E k d' = dir s')
      \<and> (\<forall>n. clock E (Suc n) \<ge> clock E n + pollInterval) \<longrightarrow>
      (\<exists>d'. sendRequest E c meth params opt d =
           Some (Inl (TimedOut meth (nextId c) (case opt of None \<Rightarrow> requestTimeout | Some t \<Rightarrow> t)),
                 c\<lparr>nextId := nextId c + 1\<rparr>, d')))"
proof (intro conjI impI)
  show "\<forall>x\<in>set (findFilesByPrefix ex). 1 \<le> x \<and> x \<le> 10000 \<and> ex x"
    by (rule findFilesByPrefix_found)
next
  assume "\<forall>x. g < x \<and> x \<le> g + 101 \<longrightarrow> \<not> ex x"
  then show "\<forall>x\<in>set (findFilesByPrefix ex). x \<le> g" by (rule findFilesByPrefix_gap)
next
  assume "\<forall>x. 1 \<le> x \<and> x \<le> 101 \<longrightarrow> \<not> ex x"
  then have "\<forall>x\<in>set (findFilesByPrefix ex). x \<le> 0"
    using findFilesByPrefix_gap [of 0 ex] by simp
  moreover have "\<forall>x\<in>set (findFilesByPrefix ex). 1 \<le> x" using findFilesByPrefix_found by blast
  ultimately have "x \<notin> set (findFilesByPrefix ex)" for x
    by (metis le_zero_eq not_one_le_zero)
  then show "findFilesByPrefix ex = []" by (cases "findFilesByPrefix ex") auto
next
  have "\<forall>x\<in>set (findFilesByPrefix (\<lambda>x. x = 150)). x \<le> 0"
    using findFilesByPrefix_gap [of 0 "\<lambda>x. x = 150"] by simp
  moreover have "\<forall>x\<in>set (findFilesByPrefix (\<lambda>x. x = 150)). 1 \<le> x"
    using findFilesByPrefix_found by blast
  ultimately have "x \<notin> set (findFilesByPrefix (\<lambda>x. x = 150))" for x
    by (metis le_zero_eq not_one_le_zero)
  then show "findFilesByPrefix (\<lambda>x. x = 150) = []"
    by (cases "findFilesByPrefix (\<lambda>x. x = 150)") auto
next
  show "findFilesByPrefix (\<lambda>x. x = 101) = [101]"
    by (rule lone_101)
next
  assume "(\<forall>x. g < x \<and> x \<le> g + 101 \<longrightarrow> req_file (dir s) x = None)
      \<and> ticks dec tools n s = Inr s' \<and> g < i"
  then show "req_file (dir s') i = req_file (dir s) i"
    and "resp_file (dir s') i = resp_file (dir s) i"
    using ticks_beyond_gap [of g s dec tools n s' i] by simp_all
next
  assume a: "connected c \<and> g + 101 < nextId c
      \<and> (\<forall>x. g < x \<and> x \<le> g + 101 \<longrightarrow> req_file d x = None)
      \<and> resp_file d (nextId c) = None
      \<and> (\<forall>k d'. \<exists>n (s0 :: 'w server) s'.
             dir s0 = d' \<and> ticks dec tools n s0 = Inr s' \<and> other E k d' = dir s')
      \<and> (\<forall>n. clock E (Suc n) \<ge> clock E n + pollInterval)"
  then show "\<exists>d'. sendRequest E c meth params opt d =
           Some (Inl (TimedOut meth (nextId c) (case opt of None \<Rightarrow> requestTimeout | Some t \<Rightarrow> t)),
                 c\<lparr>nextId := nextId c + 1\<rparr>, d')"
    using sendRequest_unanswered [where c = c and g = g and d = d and E = E and dec = dec
        and tools = tools and meth = meth and params = params and opt = opt]
    by blast
qed

theorem scan_ends_in_gap_witness:
  "findFilesByPrefix (\<lambda>x. req_file (dir example_lone) x \<noteq> None) = []
 \<and> (\<exists>s'. ticks example_dec example_tools 7 example_lone = Inr s'
       \<and> req_file (dir s') 150 = Some ''get info'' \<and> resp_file (dir s') 150 = None)
 \<and> connected \<lparr>nextId = 150, connected = True\<rparr>
 \<and> (\<exists>d'. sendRequest example_link \<lparr>nextId = 150, connected = True\<rparr> ''document.getInfo'' (JObj []) None
            \<lparr>req_file = Map.empty, resp_file = Map.empty\<rparr> =
          Some (Inl (TimedOut ''document.getInfo'' 150 10000), \<lparr>nextId = 151, connected = True\<rparr>, d'))"
proof -
  let ?c = "\<lparr>nextId = 150, connected = True\<rparr>"
  let ?d = "\<lparr>req_file = Map.empty, resp_file = Map.empty\<rparr> :: encoded ipc"
  have gap: "\<forall>x. 0 < x \<and> x \<le> 0 + 101 \<longrightarrow> req_file (dir example_lone) x = None"
    by (simp add: example_lone_def)
  have gap1: "\<forall>x. 1 \<le> x \<and> x \<le> 101 \<longrightarrow> \<not> req_file (dir example_lone) x \<noteq> None"
    by (simp add: example_lone_def)
  have c1: "findFilesByPrefix (\<lambda>x. req_file (dir example_lone) x \<noteq> None) = []"
    using scan_ends_in_gap [where ex = "\<lambda>x. req_file (dir example_lone) x \<noteq> None",
        THEN conjunct2, THEN conjunct2, THEN conjunct1] gap1 by blast
  obtain s' where s': "ticks example_dec example_tools 7 example_lone = Inr s'"
    using ticks_total by blast
  have "req_file (dir s') 150 = req_file (dir example_lone) 150
      \<and> resp_file (dir s') 150 = resp_file (dir example_lone) 150"
    using scan_ends_in_gap [where g = 0 and s = example_lone and dec = example_dec
        and tools = example_tools and n = 7 and s' = s' and i = 150,
        THEN conjunct2, THEN conjunct2, THEN conjunct2, THEN conjunct2, THEN conjunct2, THEN conjunct1]
      gap s' by simp
  then have c2: "\<exists>s'. ticks example_dec example_tools 7 example_lone = Inr s'
       \<and> req_file (dir s') 150 = Some ''get info'' \<and> resp_file (dir s') 150 = None"
    using s' by (simp add: example_lone_def)
  have h1: "connected ?c" "0 + 101 < nextId ?c" by simp_all
  have h2: "\<forall>x. 0 < x \<and> x \<le> 0 + 101 \<longrightarrow> req_file ?d x = None" "resp_file ?d (nextId ?c) = None"
    by simp_all
  have h3: "\<forall>k d'. \<exists>n (s0 :: nat server) s'.
             dir s0 = d' \<and> ticks example_dec example_tools n s0 = Inr s' \<and> other example_link k d' = dir s'"
  proof (intro allI)
    fix k :: nat and d' :: "encoded ipc"
    let ?s0 = "\<lparr>isRunning = True, dir = d', machine = \<lparr>world = 0 :: nat, calls = []\<rparr>\<rparr>"
    obtain s1 where s1: "ticks example_dec example_tools 3 ?s0 = Inr s1" using ticks_total by blast
    then have "other example_link k d' = dir s1" by (simp add: example_link_def)
    with s1 show "\<exists>n (s0 :: nat server) s'.
             dir s0 = d' \<and> ticks example_dec example_tools n s0 = Inr s' \<and> other example_link k d' = dir s'"
      by (intro exI [of _ 3] exI [of _ ?s0] exI [of _ s1]) simp
  qed
  have h4: "\<forall>n. clock example_link (Suc n) \<ge> clock example_link n + pollInterval"
    by (simp add: example_link_def pollInterval_def)
  have c3: "\<exists>d'. sendRequest example_link ?c ''document.getInfo'' (JObj []) None ?d =
          Some (Inl (TimedOut ''document.getInfo'' 150 10000), \<lparr>nextId = 151, connected = True\<rparr>, d')"
    using scan_ends_in_gap [where g = 0 and c = ?c and d = ?d and dec = example_dec
        and tools = example_tools and E = example_link and meth = "''document.getInfo''"
        and params = "JObj []" and opt = None,
        THEN conjunct2, THEN conjunct2, THEN conjunct2, THEN conjunct2, THEN conjunct2, THEN conjunct2]
      h1 h2 h3 h4
    by (simp add: requestTimeout_def)
  from c1 c2 c3 show ?thesis by simp
qed

section \<open>Properties of the encoder\<close>

lemma bitlen_bounds: "2 ^ k \<le> n \<Longrightarrow> n < 2 ^ Suc k \<Longrightarrow> bitlen n = Suc k"
proof (induction k arbitrary: n)
  case 0
  then have "n = 1" by simp
  then show ?case by (simp add: bitlen.simps)
next
  case (Suc k)
  then have "2 ^ k \<le> n div 2" "n div 2 < 2 ^ Suc k" by auto
  then have "bitlen (n div 2) = Suc k" by (rule Suc.IH)
  moreover have "n \<noteq> 0" using Suc.prems by auto
  ultimately show ?case by (subst bitlen.simps) simp
qed

lemma bitlen_small: "n < 2 ^ k \<Longrightarrow> bitlen n \<le> k"
proof (induction k arbitrary: n)
  case 0
  then show ?case by (simp add: bitlen.simps)
next
  case (Suc k)
  then have "n div 2 < 2 ^ k" by auto
  then have "bitlen (n div 2) \<le> k" by (rule Suc.IH)
  then show ?case by (subst bitlen.simps) simp
qed

lemma to_double_small: "\<bar>n\<bar> \<le> 2 ^ 53 \<Longrightarrow> to_double n = n"
proof -
  assume a: "\<bar>n\<bar> \<le> 2 ^ 53"
  show ?thesis
  proof (cases "\<bar>n\<bar> = 2 ^ 53")
    case True
    then have n: "nat \<bar>n\<bar> = 2 ^ 53" by simp
    have "bitlen (2 ^ 53) = Suc 53" by (rule bitlen_bounds) simp_all
    with n True show ?thesis by (auto simp: to_double_def Let_def abs_if split: if_splits)
  next
    case False
    with a have "nat \<bar>n\<bar> < 2 ^ 53" by (simp add: nat_less_iff)
    then have "bitlen (nat \<bar>n\<bar>) \<le> 53" by (rule bitlen_small)
    then have "to_double n = sgn n * int (nat \<bar>n\<bar>)" by (simp add: to_double_def Let_def)
    also have "\<dots> = sgn n * \<bar>n\<bar>" by simp
    also have "\<dots> = n" by (rule mult_sgn_abs)
    finally show ?thesis .
  qed
qed

lemma encode_number_exact: "\<bar>n\<bar> \<le> 2 ^ 53 \<Longrightarrow> encode_number n = n"
  by (simp add: encode_number_def to_double_small)

lemma to_double_beyond: "to_double 9007199254740993 = 9007199254740992"
proof -
  have "bitlen 9007199254740993 = Suc 53" by (rule bitlen_bounds) simp_all
  then show ?thesis by (simp add: to_double_def Let_def)
qed

section \<open>The id of a response\<close>

lemma sendRequest_writes:
  assumes "connected c"
  shows "sendRequest E c meth params opt_timeout d =
     (case await_response E (nextId c) meth
             (case opt_timeout of None \<Rightarrow> requestTimeout | Some ms \<Rightarrow> ms) 0
             (write_req (nextId c)
                (stringify E (JObj [(''jsonrpc'', JStr ''2.0''), (''id'', JNum (int (nextId c))),
                                    (''method'', JStr meth), (''params'', params)])) d) of
        None \<Rightarrow> None
      | Some (out, d') \<Rightarrow> Some (out, c\<lparr>nextId := nextId c + 1\<rparr>, d'))"
  using assms by (simp add: sendRequest_def Let_def split: option.splits)

lemma parseRequest_members:
  assumes "body \<noteq> ''''" "dec body = Some decoded" "field decoded ''jsonrpc'' = Some (LStr ''2.0'')"
    "field decoded ''id'' = Some v" "field decoded ''method'' = Some (LStr meth)" "meth \<noteq> ''''"
  shows "parseRequest dec body =
           Inr \<lparr>req_id = v, req_method = meth, req_params = field decoded ''params''\<rparr>"
proof -
  from assms(3) obtain kvs where "decoded = LObj kvs" by (cases decoded) auto
  with assms show ?thesis by (simp add: parseRequest_def)
qed

text \<open>
  Claim C7, amended. The response to the request file \<open>req_<i>.json\<close> is written to
  \<open>resp_<i>.json\<close>. When the body decodes to a request and the dispatcher does not
  crash, the id of the response is the id of the body as \<open>json.encode\<close> writes it:
  the id itself when it is a string, a boolean, \<open>null\<close> or an integer of magnitude
  at most \<open>2^53\<close>; but the integer \<open>2^53 + 1\<close> is written as \<open>2^53\<close>, and an
  empty object as an empty array. When the body does not decode, or the dispatcher
  crashes, the response carries no id. The bridge writes the file \<open>req_<i>.json\<close>
  with \<open>i\<close> as the id of the body, \<open>i\<close> being its counter; when the counter is
  below \<open>2^53\<close> and the decoder finds in the body the members that the bridge put
  there, the response in \<open>resp_<i>.json\<close> carries the id \<open>i\<close>.
\<close>

theorem response_id_of_body:
  "(parseRequest dec content = Inr req
      \<and> processRequest dec tools content (machine s) = (Inr resp, m') \<longrightarrow>
      (\<exists>s'. serve_request dec tools i content s = Inr s' \<and> resp_file (dir s') i = Some resp
         \<and> envelope_id resp = Some (encode_value (req_id req))))
 \<and> (v = LNull \<or> (\<exists>b. v = LBool b) \<or> (\<exists>str. v = LStr str) \<or> (\<exists>n. v = LNum n \<and> \<bar>n\<bar> \<le> 2 ^ 53) \<longrightarrow>
      encode_value v = v)
 \<and> encode_value (LNum 9007199254740993) = LNum 9007199254740992
 \<and> encode_value (LObj []) = LArr []
 \<and> (parseRequest dec content = Inl e \<longrightarrow>
      (\<exists>s' resp. serve_request dec tools i content s = Inr s' \<and> resp_file (dir s') i = Some resp
         \<and> envelope_id resp = None \<and> envelope_error_code resp = Some (LNum PARSE_ERROR)))
 \<and> (processRequest dec tools content (machine s) = (Inl crash, m') \<longrightarrow>
      (\<exists>s' resp. serve_request dec tools i content s = Inr s' \<and> resp_file (dir s') i = Some resp
         \<and> envelope_id resp = None \<and> envelope_error_code resp = Some (LNum INTERNAL_ERROR)))
 \<and> (connected c \<and> int (nextId c) < 2 ^ 53 \<and> meth \<noteq> ''''
      \<and> body = stringify E (JObj [(''jsonrpc'', JStr ''2.0''), (''id'', JNum (int (nextId c))),
                                   (''method'', JStr meth), (''params'', params)])
      \<and> body \<noteq> '''' \<and> dec body = Some decoded
      \<and> field decoded ''jsonrpc'' = Some (LStr ''2.0'')
      \<and> field decoded ''id'' = Some (LNum (int (nextId c)))
      \<and> field decoded ''method'' = Some (LStr meth)
      \<and> processRequest dec tools body (machine s) = (Inr resp, m') \<longrightarrow>
      sendRequest E c meth params opt_timeout d =
        (case await_response E (nextId c) meth
                (case opt_timeout of None \<Rightarrow> requestTimeout | Some ms \<Rightarrow> ms) 0
                (write_req (nextId c) body d) of
           None \<Rightarrow> None
         | Some (out, d') \<Rightarrow> Some (out, c\<lparr>nextId := nextId c + 1\<rparr>, d'))
    \<and> req_file (write_req (nextId c) body d) (nextId c) = Some body
    \<and> (\<exists>s'. serve_request dec tools (nextId c) body s = Inr s'
          \<and> resp_file (dir s') (nextId c) = Some resp
          \<and> envelope_id resp = Some (LNum (int (nextId c)))))"
proof (intro conjI impI)
  assume a: "parseRequest dec content = Inr req
      \<and> processRequest dec tools content (machine s) = (Inr resp, m')"
  then have "envelope_id resp = Some (encode_value (req_id req))" using processRequest_id by blast
  with a show "\<exists>s'. serve_request dec tools i content s = Inr s' \<and> resp_file (dir s') i = Some resp
         \<and> envelope_id resp = Some (encode_value (req_id req))"
    by (simp add: serve_request_def)
next
  assume "v = LNull \<or> (\<exists>b. v = LBool b) \<or> (\<exists>str. v = LStr str) \<or> (\<exists>n. v = LNum n \<and> \<bar>n\<bar> \<le> 2 ^ 53)"
  then show "encode_value v = v" by (auto simp: encode_number_exact)
next
  show "encode_value (LNum 9007199254740993) = LNum 9007199254740992"
    by (simp add: encode_number_def to_double_beyond)
next
  show "encode_value (LObj []) = LArr []" by simp
next
  assume "parseRequest dec content = Inl e"
  from processRequest_parse_error [OF this, of tools "machine s"]
  show "\<exists>s' resp. serve_request dec tools i content s = Inr s' \<and> resp_file (dir s') i = Some resp
         \<and> envelope_id resp = None \<and> envelope_error_code resp = Some (LNum PARSE_ERROR)"
    by (simp add: serve_request_def)
next
  assume "processRequest dec tools content (machine s) = (Inl crash, m')"
  then show "\<exists>s' resp. serve_request dec tools i content s = Inr s' \<and> resp_file (dir s') i = Some resp
         \<and> envelope_id resp = None \<and> envelope_error_code resp = Some (LNum INTERNAL_ERROR)"
    by (simp add: serve_request_def createError_crash)
next
  assume a: "connected c \<and> int (nextId c) < 2 ^ 53 \<and> meth \<noteq> ''''
      \<and> body = stringify E (JObj [(''jsonrpc'', JStr ''2.0''), (''id'', JNum (int (nextId c))),
                                   (''method'', JStr meth), (''params'', params)])
      \<and> body \<noteq> '''' \<and> dec body = Some decoded
      \<and> field decoded ''jsonrpc'' = Some (LStr ''2.0'')
      \<and> field decoded ''id'' = Some (LNum (int (nextId c)))
      \<and> field decoded ''method'' = Some (LStr meth)
      \<and> processRequest dec tools body (machine s) = (Inr resp, m')"
  then show "sendRequest E c meth params opt_timeout d =
        (case await_response E (nextId c) meth
                (case opt_timeout of None \<Rightarrow> requestTimeout | Some ms \<Rightarrow> ms) 0
                (write_req (nextId c) body d) of
           None \<Rightarrow> None
         | Some (out, d') \<Rightarrow> Some (out, c\<lparr>nextId := nextId c + 1\<rparr>, d'))"
    using sendRequest_writes [of c E meth params opt_timeout d] by simp
  show "req_file (write_req (nextId c) body d) (nextId c) = Some body"
    by (simp add: write_req_def)
  have pr: "parseRequest dec body =
      Inr \<lparr>req_id = LNum (int (nextId c)), req_method = meth, req_params = field decoded ''params''\<rparr>"
    using a parseRequest_members [of body dec decoded "LNum (int (nextId c))" meth] by blast
  have pb: "processRequest dec tools body (machine s) = (Inr resp, m')" using a by blast
  have "envelope_id resp = Some (encode_value (LNum (int (nextId c))))"
    using processRequest_id [OF pr pb] by simp
  moreover have "encode_value (LNum (int (nextId c))) = LNum (int (nextId c))"
    using a by (simp add: encode_number_small)
  ultimately show "\<exists>s'. serve_request dec tools (nextId c) body s = Inr s'
          \<and> resp_file (dir s') (nextId c) = Some resp
          \<and> envelope_id resp = Some (LNum (int (nextId c)))"
    using pb by (simp add: serve_request_def)
qed

lemmas server_eval =
  processRequest_def parseRequest_def example_dec_def isAllowed_def allowedMethods_def
  validateParams_def paramSchemas_def params_or_empty_def handlers_def example_tools_def
  pcall_handler_def lift_tool_def createError_def createResponse_def json_encode_def
  encode_number_def example_server_def

theorem response_id_of_body_witness:
  "parseRequest example_dec ''get info'' =
     Inr \<lparr>req_id = LNum 2, req_method = ''document.getInfo'', req_params = None\<rparr>
 \<and> processRequest example_dec example_tools ''get info'' (machine example_server) =
     (Inr (Encoded (LObj [(''jsonrpc'', LStr ''2.0''), (''id'', LNum 2), (''result'', LNum 0)])),
      \<lparr>world = 0, calls = [(''document.getInfo'', LObj [])]\<rparr>)
 \<and> (\<exists>s'. serve_request example_dec example_tools 2 ''get info'' example_server = Inr s'
       \<and> resp_file (dir s') 2 =
           Some (Encoded (LObj [(''jsonrpc'', LStr ''2.0''), (''id'', LNum 2), (''result'', LNum 0)]))
       \<and> envelope_id (Encoded (LObj [(''jsonrpc'', LStr ''2.0''), (''id'', LNum 2), (''result'', LNum 0)]))
           = Some (LNum 2))
 \<and> encode_value (LNum 2) = LNum 2
 \<and> encode_value (LStr ''a-1'') = LStr ''a-1''
 \<and> encode_value (LNum 9007199254740992) = LNum 9007199254740992
 \<and> parseRequest example_dec ''not json'' = Inl ''Parse error: malformed JSON''
 \<and> (\<exists>s' resp. serve_request example_dec example_tools 9 ''not json'' example_server = Inr s'
       \<and> resp_file (dir s') 9 = Some resp
       \<and> envelope_id resp = None \<and> envelope_error_code resp = Some (LNum (- 32700)))
 \<and> processRequest example_dec example_tools ''get layer 7'' (machine example_server) =
     (Inl ''json.encode: cannot encode value'',
      \<lparr>world = 0, calls = [(''layer.getProperties'', LObj [(''layerId'', LNum 7)])]\<rparr>)
 \<and> (\<exists>s' resp. serve_request example_dec example_tools 3 ''get layer 7'' example_server = Inr s'
       \<and> resp_file (dir s') 3 = Some resp
       \<and> envelope_id resp = None \<and> envelope_error_code resp = Some (LNum (- 32603)))
 \<and> connected \<lparr>nextId = 2, connected = True\<rparr>
 \<and> stringify example_link
       (JObj [(''jsonrpc'', JStr ''2.0''), (''id'', JNum 2),
              (''method'', JStr ''document.getInfo''), (''params'', JObj [])]) = ''get info''
 \<and> example_dec ''get info'' =
       Some (LObj [(''jsonrpc'', LStr ''2.0''), (''id'', LNum 2), (''method'', LStr ''document.getInfo'')])
 \<and> sendRequest example_link \<lparr>nextId = 2, connected = True\<rparr> ''document.getInfo'' (JObj []) None
       \<lparr>req_file = Map.empty, resp_file = Map.empty\<rparr> =
     (case await_response example_link 2 ''document.getInfo'' requestTimeout 0
             (write_req 2 ''get info'' \<lparr>req_file = Map.empty, resp_file = Map.empty\<rparr>) of
        None \<Rightarrow> None
      | Some (out, d') \<Rightarrow> Some (out, \<lparr>nextId = 3, connected = True\<rparr>, d'))
 \<and> req_file (write_req 2 ''get info'' \<lparr>req_file = Map.empty, resp_file = Map.empty\<rparr>) 2
       = Some ''get info''"
proof -
  let ?resp = "Encoded (LObj [(''jsonrpc'', LStr ''2.0''), (''id'', LNum 2), (''result'', LNum 0)])"
  let ?c = "\<lparr>nextId = 2, connected = True\<rparr>"
  let ?d = "\<lparr>req_file = Map.empty, resp_file = Map.empty\<rparr> :: encoded ipc"
  let ?decoded = "LObj [(''jsonrpc'', LStr ''2.0''), (''id'', LNum 2), (''method'', LStr ''document.getInfo'')]"
  have h1: "parseRequest example_dec ''get info'' =
     Inr \<lparr>req_id = LNum 2, req_method = ''document.getInfo'', req_params = None\<rparr>"
    by (simp add: parseRequest_def example_dec_def)
  have h2: "processRequest example_dec example_tools ''get info'' (machine example_server) =
     (Inr ?resp, \<lparr>world = 0, calls = [(''document.getInfo'', LObj [])]\<rparr>)"
    by (simp add: server_eval)
  have h3: "parseRequest example_dec ''not json'' = Inl ''Parse error: malformed JSON''"
    by (simp add: parseRequest_def example_dec_def)
  have h4: "processRequest example_dec example_tools ''get layer 7'' (machine example_server) =
     (Inl ''json.encode: cannot encode value'',
      \<lparr>world = 0, calls = [(''layer.getProperties'', LObj [(''layerId'', LNum 7)])]\<rparr>)"
    by (simp add: server_eval)
  have h5: "connected ?c" "int (nextId ?c) < 2 ^ 53" "nextId ?c = 2" by simp_all
  have h6: "stringify example_link
       (JObj [(''jsonrpc'', JStr ''2.0''), (''id'', JNum 2),
              (''method'', JStr ''document.getInfo''), (''params'', JObj [])]) = ''get info''"
    by (simp add: example_link_def)
  have h7: "example_dec ''get info'' = Some ?decoded" by (simp add: example_dec_def)
  from response_id_of_body [where dec = example_dec and content = "''get info''"
      and tools = example_tools and s = example_server and i = 2
      and req = "\<lparr>req_id = LNum 2, req_method = ''document.getInfo'', req_params = None\<rparr>"
      and resp = ?resp
      and m' = "\<lparr>world = 0, calls = [(''document.getInfo'', LObj [])]\<rparr>", THEN conjunct1] h1 h2
  have c1: "\<exists>s'. serve_request example_dec example_tools 2 ''get info'' example_server = Inr s'
       \<and> resp_file (dir s') 2 = Some ?resp
       \<and> envelope_id ?resp = Some (encode_value (LNum 2))"
    by simp
  have e1: "encode_value (LNum 2) = LNum 2"
    using response_id_of_body [where v = "LNum 2", THEN conjunct2, THEN conjunct1] by simp
  have e2: "encode_value (LStr ''a-1'') = LStr ''a-1''"
    using response_id_of_body [where v = "LStr ''a-1''", THEN conjunct2, THEN conjunct1] by simp
  have e3: "encode_value (LNum 9007199254740992) = LNum 9007199254740992"
    using response_id_of_body [where v = "LNum 9007199254740992", THEN conjunct2, THEN conjunct1] by simp
  from response_id_of_body [where dec = example_dec and content = "''not json''"
      and tools = example_tools and s = example_server and i = 9
      and e = "''Parse error: malformed JSON''",
      THEN conjunct2, THEN conjunct2, THEN conjunct2, THEN conjunct2, THEN conjunct1] h3
  have c2: "\<exists>s' resp. serve_request example_dec example_tools 9 ''not json'' example_server = Inr s'
       \<and> resp_file (dir s') 9 = Some resp
       \<and> envelope_id resp = None \<and> envelope_error_code resp = Some (LNum (- 32700))"
    by (simp add: PARSE_ERROR_def)
  from response_id_of_body [where dec = example_dec and content = "''get layer 7''"
      and tools = example_tools and s = example_server and i = 3
      and crash = "''json.encode: cannot encode value''"
      and m' = "\<lparr>world = 0, calls = [(''layer.getProperties'', LObj [(''layerId'', LNum 7)])]\<rparr>",
      THEN conjunct2, THEN conjunct2, THEN conjunct2, THEN conjunct2, THEN conjunct2, THEN conjunct1] h4
  have c3: "\<exists>s' resp. serve_request example_dec example_tools 3 ''get layer 7'' example_server = Inr s'
       \<and> resp_file (dir s') 3 = Some resp
       \<and> envelope_id resp = None \<and> envelope_error_code resp = Some (LNum (- 32603))"
    by (simp add: INTERNAL_ERROR_def)
  from response_id_of_body [where c = ?c and meth = "''document.getInfo''" and body = "''get info''"
      and E = example_link and params = "JObj []" and dec = example_dec and decoded = ?decoded
      and tools = example_tools and s = example_server and resp = ?resp
      and m' = "\<lparr>world = 0, calls = [(''document.getInfo'', LObj [])]\<rparr>"
      and opt_timeout = None and d = ?d,
      THEN conjunct2, THEN conjunct2, THEN conjunct2, THEN conjunct2, THEN conjunct2, THEN conjunct2]
    h2 h5 h6 h7
  have c4: "sendRequest example_link ?c ''document.getInfo'' (JObj []) None ?d =
     (case await_response example_link 2 ''document.getInfo'' requestTimeout 0
             (write_req 2 ''get info'' ?d) of
        None \<Rightarrow> None
      | Some (out, d') \<Rightarrow> Some (out, \<lparr>nextId = 3, connected = True\<rparr>, d'))
    \<and> req_file (write_req 2 ''get info'' ?d) 2 = Some ''get info''"
    by (simp cong: option.case_cong prod.case_cong)
  from h1 h2 h3 h4 h5(1) h6 h7 c1 e1 e2 e3 c2 c3 c4 show ?thesis by simp
qed

section \<open>The counters of a batch\<close>

lemma is_skipped_simps [simp]:
  "is_skipped (skipped i)"
  "is_skipped (failure i c msg) \<longleftrightarrow> c = - 32000 \<and> msg = Some (LStr ''Skipped (stopOnError)'')"
  "\<not> is_skipped (success i r)"
  by (cases msg; cases r; auto simp: is_skipped_def skipped_def failure_def success_def)+

lemma field_skipped [simp]:
  "field (skipped i) ''success'' = Some (LBool False)"
  by (simp add: skipped_def)

lemma batch_op_rejected_code:
  assumes "\<not> stoppedEarly st" "rejected tools op"
  shows "\<exists>c msg. batch_op tools soe i op st = op_failed soe i c msg st
           \<and> c \<in> {- 32600, - 32601, - 32602}"
  using assms
  by (auto simp: batch_op_def rejected_def op_method_def Let_def
      split: option.splits lua.splits sum.splits if_splits)

lemma batch_op_dispatched:
  assumes "\<not> stoppedEarly st" "\<not> rejected tools op"
  shows "length (calls (mach (batch_op tools soe i op st))) = length (calls (mach st)) + 1"
  using assms
  by (auto simp: batch_op_def rejected_def op_method_def Let_def pcall_tool_def
      split: option.splits lua.splits sum.splits if_splits prod.splits houtcome.splits)

lemma batch_op_counted:
  assumes "executed st = length (filter (\<lambda>e. \<not> is_skipped e) (results st))"
    and "failed st = length (filter (\<lambda>e. \<not> is_skipped e \<and> field e ''success'' = Some (LBool False)) (results st))"
    and "succeeded st = length (filter (\<lambda>e. field e ''success'' = Some (LBool True)) (results st))"
  shows "executed (batch_op tools soe i op st) =
           length (filter (\<lambda>e. \<not> is_skipped e) (results (batch_op tools soe i op st)))"
    and "failed (batch_op tools soe i op st) =
           length (filter (\<lambda>e. \<not> is_skipped e \<and> field e ''success'' = Some (LBool False))
                     (results (batch_op tools soe i op st)))"
    and "succeeded (batch_op tools soe i op st) =
           length (filter (\<lambda>e. field e ''success'' = Some (LBool True))
                     (results (batch_op tools soe i op st)))"
proof -
  show "executed (batch_op tools soe i op st) =
           length (filter (\<lambda>e. \<not> is_skipped e) (results (batch_op tools soe i op st)))"
  proof (cases "stoppedEarly st")
    case True
    with assms show ?thesis by (simp add: batch_op_stopped)
  next
    case False
    from batch_op_running [OF this, of tools soe i op] assms show ?thesis by auto
  qed
  show "failed (batch_op tools soe i op st) =
           length (filter (\<lambda>e. \<not> is_skipped e \<and> field e ''success'' = Some (LBool False))
                     (results (batch_op tools soe i op st)))"
  proof (cases "stoppedEarly st")
    case True
    with assms show ?thesis by (simp add: batch_op_stopped)
  next
    case False
    from batch_op_running [OF this, of tools soe i op] assms show ?thesis by auto
  qed
  show "succeeded (batch_op tools soe i op st) =
           length (filter (\<lambda>e. field e ''success'' = Some (LBool True))
                     (results (batch_op tools soe i op st)))"
  proof (cases "stoppedEarly st")
    case True
    with assms show ?thesis by (simp add: batch_op_stopped)
  next
    case False
    from batch_op_running [OF this, of tools soe i op] assms show ?thesis by auto
  qed
qed

lemma batch_loop_counted:
  assumes "executed st = length (filter (\<lambda>e. \<not> is_skipped e) (results st))"
    and "failed st = length (filter (\<lambda>e. \<not> is_skipped e \<and> field e ''success'' = Some (LBool False)) (results st))"
    and "succeeded st = length (filter (\<lambda>e. field e ''success'' = Some (LBool True)) (results st))"
  shows "executed (batch_loop tools soe i ops st) =
           length (filter (\<lambda>e. \<not> is_skipped e) (results (batch_loop tools soe i ops st)))
       \<and> failed (batch_loop tools soe i ops st) =
           length (filter (\<lambda>e. \<not> is_skipped e \<and> field e ''success'' = Some (LBool False))
                     (results (batch_loop tools soe i ops st)))
       \<and> succeeded (batch_loop tools soe i ops st) =
           length (filter (\<lambda>e. field e ''success'' = Some (LBool True))
                     (results (batch_loop tools soe i ops st)))"
  using assms
proof (induction ops arbitrary: i st)
  case Nil
  then show ?case by simp
next
  case (Cons op ops)
  show ?case
    using Cons.IH [OF batch_op_counted [OF Cons.prems]] by simp
qed

lemma batch_loop_length:
  "length (results (batch_loop tools soe i ops st)) = length (results st) + length ops"
  using batch_loop_results [of tools soe i ops st] by auto

lemma batch_loop_step:
  assumes "j < length ops"
  shows "batch_loop tools soe i (take (Suc j) ops) st =
         batch_op tools soe (i + j) (ops ! j) (batch_loop tools soe i (take j ops) st)"
proof -
  have "take (Suc j) ops = take j ops @ [ops ! j]"
    using assms by (rule take_Suc_conv_app_nth)
  moreover have "length (take j ops) = j" using assms by simp
  ultimately show ?thesis
    using batch_loop_append [of tools soe i "take j ops" "[ops ! j]" st] by simp
qed

lemma batch_loop_prefix:
  "\<exists>es. results (batch_loop tools soe i ops st) =
          results (batch_loop tools soe i (take n ops) st) @ es"
proof -
  have "batch_loop tools soe i ops st =
        batch_loop tools soe (i + length (take n ops)) (drop n ops)
          (batch_loop tools soe i (take n ops) st)"
    using batch_loop_append [of tools soe i "take n ops" "drop n ops" st] by simp
  then show ?thesis
    using batch_loop_results [of tools soe "i + length (take n ops)" "drop n ops"
        "batch_loop tools soe i (take n ops) st"]
    by auto
qed

lemma batch_loop_entry:
  assumes "j < length ops"
  shows "results (batch_loop tools soe i ops st) ! (length (results st) + j) =
         last (results (batch_op tools soe (i + j) (ops ! j) (batch_loop tools soe i (take j ops) st)))"
proof -
  let ?P = "batch_loop tools soe i (take j ops) st"
  let ?Q = "batch_op tools soe (i + j) (ops ! j) ?P"
  obtain e where e: "results ?Q = results ?P @ [e]"
    using batch_op_results [of tools soe "i + j" "ops ! j" ?P] by blast
  have lp: "length (results ?P) = length (results st) + j"
    using assms by (simp add: batch_loop_length)
  obtain es where "results (batch_loop tools soe i ops st) =
      results (batch_loop tools soe i (take (Suc j) ops) st) @ es"
    using batch_loop_prefix by blast
  then have "results (batch_loop tools soe i ops st) = results ?P @ e # es"
    using batch_loop_step [OF assms, of tools soe i st] e by simp
  then have "results (batch_loop tools soe i ops st) ! (length (results st) + j) = e"
    using lp by (metis nth_append_length)
  with e show ?thesis by simp
qed

lemma batch_op_all:
  assumes "\<not> stoppedEarly st"
  shows "\<not> stoppedEarly (batch_op tools False i op st)"
    and "executed (batch_op tools False i op st) = executed st + 1"
    and "failed st + (if rejected tools op then 1 else 0) \<le> failed (batch_op tools False i op st)"
    and "length (calls (mach (batch_op tools False i op st))) =
         length (calls (mach st)) + (if rejected tools op then 0 else 1)"
proof -
  from batch_op_running [OF assms, of tools False i op]
  show "\<not> stoppedEarly (batch_op tools False i op st)"
    and "executed (batch_op tools False i op st) = executed st + 1"
    using assms by auto
  show "failed st + (if rejected tools op then 1 else 0) \<le> failed (batch_op tools False i op st)"
  proof (cases "rejected tools op")
    case True
    from batch_op_rejected [OF assms this, of False i] show ?thesis using True by auto
  next
    case False
    from batch_op_running [OF assms, of tools False i op] show ?thesis using False by auto
  qed
  show "length (calls (mach (batch_op tools False i op st))) =
         length (calls (mach st)) + (if rejected tools op then 0 else 1)"
  proof (cases "rejected tools op")
    case True
    from batch_op_rejected [OF assms this, of False i] show ?thesis using True by auto
  next
    case False
    from batch_op_dispatched [OF assms this, of False i] show ?thesis using False by simp
  qed
qed

lemma batch_loop_all:
  "\<not> stoppedEarly st \<Longrightarrow>
   \<not> stoppedEarly (batch_loop tools False i ops st)
   \<and> executed (batch_loop tools False i ops st) = executed st + length ops
   \<and> failed st + length (filter (rejected tools) ops) \<le> failed (batch_loop tools False i ops st)
   \<and> length (calls (mach (batch_loop tools False i ops st))) =
       length (calls (mach st)) + length (filter (\<lambda>op. \<not> rejected tools op) ops)"
proof (induction ops arbitrary: i st)
  case Nil
  then show ?case by simp
next
  case (Cons op ops)
  note op = batch_op_all [OF Cons.prems, where tools = tools and i = i and op = op]
  from Cons.IH [OF op(1), of "Suc i"] op(2,3,4)
  show ?case by auto
qed

text \<open>
  Claim C10. A batch of 1 to 50 operations runs, with or without \<open>stopOnError\<close>.
  \<open>batch.execute\<close> returns the reply whose summary holds the counters of the loop
  and whose result array holds its entries, one per operation. In the summary,
  \<open>executed\<close> is the number of entries that are not the skipped entry, \<open>failed\<close> the
  number of those that are failures, and \<open>succeeded\<close> the number of successes, so
  \<open>executed = succeeded + failed\<close>, for the batch and after every operation of it. An
  operation that is reached while the batch has not stopped and is rejected before its
  handler is called (bad structure, on the denylist, not on the allow-list, invalid
  parameters, no handler registered) adds one to \<open>executed\<close> and one to \<open>failed\<close>
  and leaves the machine as it was (no handler ran); its entry in the reply is a
  failure that is not the skipped entry. An operation reached after the batch has
  stopped changes no counter and not the machine; its entry is the skipped entry.
  Without \<open>stopOnError\<close>, \<open>executed\<close> is the number of operations, \<open>failed\<close> is at
  least the number of rejected ones, and the handler calls logged are as many as the
  operations that are not rejected.
\<close>

theorem batch_summary_counters:
  fixes tools :: "string \<rightharpoonup> 'w tool"
  defines "run \<equiv> (\<lambda>soe m ops. batch_loop tools soe 1 ops (batch_init m))"
  assumes "field params ''operations'' = Some (LArr ops)" "ops \<noteq> []" "length ops \<le> 50"
    and "soe = truthy (field params ''stopOnError'')"
  shows "batch_execute tools m params =
           (Returns (Some (batch_reply (length ops) (run soe m ops))) None, mach (run soe m ops))
       \<and> field (batch_reply (length ops) (run soe m ops)) ''summary'' =
           Some (LObj [(''total'', LNum (int (length ops))),
                       (''executed'', LNum (int (executed (run soe m ops)))),
                       (''succeeded'', LNum (int (succeeded (run soe m ops)))),
                       (''failed'', LNum (int (failed (run soe m ops)))),
                       (''stoppedEarly'', LBool (stoppedEarly (run soe m ops)))])
       \<and> field (batch_reply (length ops) (run soe m ops)) ''results'' =
           Some (LArr (results (run soe m ops)))
       \<and> length (results (run soe m ops)) = length ops
       \<and> executed (run soe m ops) = length (filter (\<lambda>e. \<not> is_skipped e) (results (run soe m ops)))
       \<and> failed (run soe m ops) =
           length (filter (\<lambda>e. \<not> is_skipped e \<and> field e ''success'' = Some (LBool False))
                     (results (run soe m ops)))
       \<and> succeeded (run soe m ops) =
           length (filter (\<lambda>e. field e ''success'' = Some (LBool True)) (results (run soe m ops)))
       \<and> (\<forall>n. executed (run soe m (take n ops)) =
                succeeded (run soe m (take n ops)) + failed (run soe m (take n ops)))
       \<and> executed (run soe m ops) = succeeded (run soe m ops) + failed (run soe m ops)
       \<and> (\<forall>j<length ops. \<not> stoppedEarly (run soe m (take j ops)) \<and> rejected tools (ops ! j) \<longrightarrow>
              executed (run soe m (take (j + 1) ops)) = executed (run soe m (take j ops)) + 1
            \<and> failed (run soe m (take (j + 1) ops)) = failed (run soe m (take j ops)) + 1
            \<and> succeeded (run soe m (take (j + 1) ops)) = succeeded (run soe m (take j ops))
            \<and> mach (run soe m (take (j + 1) ops)) = mach (run soe m (take j ops))
            \<and> \<not> is_skipped (results (run soe m ops) ! j)
            \<and> field (results (run soe m ops) ! j) ''success'' = Some (LBool False))
       \<and> (\<forall>j<length ops. stoppedEarly (run soe m (take j ops)) \<longrightarrow>
              executed (run soe m (take (j + 1) ops)) = executed (run soe m (take j ops))
            \<and> failed (run soe m (take (j + 1) ops)) = failed (run soe m (take j ops))
            \<and> succeeded (run soe m (take (j + 1) ops)) = succeeded (run soe m (take j ops))
            \<and> mach (run soe m (take (j + 1) ops)) = mach (run soe m (take j ops))
            \<and> results (run soe m ops) ! j = skipped (j + 1))
       \<and> (\<not> soe \<longrightarrow>
              executed (run soe m ops) = length ops
            \<and> length (filter (rejected tools) ops) \<le> failed (run soe m ops)
            \<and> length (calls (mach (run soe m ops))) =
                length (calls m) + length (filter (\<lambda>op. \<not> rejected tools op) ops))"
proof -
  let ?run = "\<lambda>ops. batch_loop tools soe 1 ops (batch_init m)"
  have init: "\<not> stoppedEarly (batch_init m)" "results (batch_init m) = []"
    "executed (batch_init m) = 0" "succeeded (batch_init m) = 0" "failed (batch_init m) = 0"
    "mach (batch_init m) = m"
    by (simp_all add: batch_init_def)
  have c1: "batch_execute tools m params =
      (Returns (Some (batch_reply (length ops) (?run ops))) None, mach (?run ops))"
    using batch_execute_runs [OF assms(2-4), of tools m] assms(5) by (simp add: Let_def)
  have c2: "field (batch_reply (length ops) (?run ops)) ''summary'' =
           Some (LObj [(''total'', LNum (int (length ops))),
                       (''executed'', LNum (int (executed (?run ops)))),
                       (''succeeded'', LNum (int (succeeded (?run ops)))),
                       (''failed'', LNum (int (failed (?run ops)))),
                       (''stoppedEarly'', LBool (stoppedEarly (?run ops)))])"
    and c3: "field (batch_reply (length ops) (?run ops)) ''results'' = Some (LArr (results (?run ops)))"
    by (simp_all add: batch_reply_def)
  have c4: "length (results (?run ops)) = length ops"
    by (simp add: batch_loop_length init)
  have c5: "executed (?run ops) = length (filter (\<lambda>e. \<not> is_skipped e) (results (?run ops)))
       \<and> failed (?run ops) =
           length (filter (\<lambda>e. \<not> is_skipped e \<and> field e ''success'' = Some (LBool False))
                     (results (?run ops)))
       \<and> succeeded (?run ops) =
           length (filter (\<lambda>e. field e ''success'' = Some (LBool True)) (results (?run ops)))"
    by (rule batch_loop_counted) (simp_all add: init)
  have c6: "executed (?run xs) = succeeded (?run xs) + failed (?run xs)" for xs
    by (rule batch_loop_invariant) (simp add: init)
  have step: "?run (take (j + 1) ops) = batch_op tools soe (j + 1) (ops ! j) (?run (take j ops))"
    if "j < length ops" for j
    using batch_loop_step [OF that, of tools soe 1 "batch_init m"] by simp
  have entry: "results (?run ops) ! j = last (results (?run (take (j + 1) ops)))"
    if "j < length ops" for j
    using batch_loop_entry [OF that, of tools soe 1 "batch_init m"] step [OF that]
    by (simp add: init)
  have c7: "executed (?run (take (j + 1) ops)) = executed (?run (take j ops)) + 1
            \<and> failed (?run (take (j + 1) ops)) = failed (?run (take j ops)) + 1
            \<and> succeeded (?run (take (j + 1) ops)) = succeeded (?run (take j ops))
            \<and> mach (?run (take (j + 1) ops)) = mach (?run (take j ops))
            \<and> \<not> is_skipped (results (?run ops) ! j)
            \<and> field (results (?run ops) ! j) ''success'' = Some (LBool False)"
    if lt: "j < length ops" and running: "\<not> stoppedEarly (?run (take j ops))"
      and rej: "rejected tools (ops ! j)" for j
  proof -
    obtain c msg where "batch_op tools soe (j + 1) (ops ! j) (?run (take j ops)) =
        op_failed soe (j + 1) c msg (?run (take j ops))" "c \<in> {- 32600, - 32601, - 32602}"
      using batch_op_rejected_code [OF running rej] by blast
    then show ?thesis
      using step [OF lt] entry [OF lt] by auto
  qed
  have c8: "executed (?run (take (j + 1) ops)) = executed (?run (take j ops))
            \<and> failed (?run (take (j + 1) ops)) = failed (?run (take j ops))
            \<and> succeeded (?run (take (j + 1) ops)) = succeeded (?run (take j ops))
            \<and> mach (?run (take (j + 1) ops)) = mach (?run (take j ops))
            \<and> results (?run ops) ! j = skipped (j + 1)"
    if "j < length ops" "stoppedEarly (?run (take j ops))" for j
    using step [OF that(1)] entry [OF that(1)] batch_op_stopped [OF that(2), of tools soe "j + 1" "ops ! j"]
    by simp
  have c9: "executed (?run ops) = length ops
            \<and> length (filter (rejected tools) ops) \<le> failed (?run ops)
            \<and> length (calls (mach (?run ops))) =
                length (calls m) + length (filter (\<lambda>op. \<not> rejected tools op) ops)"
    if "\<not> soe"
    using batch_loop_all [OF init(1), of tools 1 ops] that by (simp add: init)
  show ?thesis
    unfolding run_def using c1 c2 c3 c4 c5 c6 c7 c8 c9 by blast
qed

lemma example_rejects_run:
  "batch_loop example_tools False 1 example_rejects (batch_init \<lparr>world = 0, calls = []\<rparr>) =
     \<lparr>results =
        [failure 1 (- 32600) (Some (LStr (''Invalid operation at index 1: must have a string ''
                                          @ [CHR 0x27] @ ''method'' @ [CHR 0x27]))),
         failure 2 (- 32601) (Some (LStr ''Method not allowed in batch: document.screenshot'')),
         failure 3 (- 32601) (Some (LStr ''Method not found: nope'')),
         failure 4 (- 32602) (Some (LStr ''Missing required parameter: layerId'')),
         failure 5 (- 32601) (Some (LStr ''No handler registered for: mesh.getPoints'')),
         success 6 (Some (LBool True))],
      succeeded = 1, failed = 5, executed = 6, stoppedEarly = False,
      mach = \<lparr>world = 1, calls = [(''document.setFrame'', LObj [(''frame'', LNum 3)])]\<rparr>\<rparr>"
  by (simp add: batch_eval example_rejects_def tostring_nat.simps digit_def)

lemma example_rejects_first:
  "batch_loop example_tools False 1 (take 1 example_rejects) (batch_init \<lparr>world = 0, calls = []\<rparr>) =
     \<lparr>results =
        [failure 1 (- 32600) (Some (LStr (''Invalid operation at index 1: must have a string ''
                                          @ [CHR 0x27] @ ''method'' @ [CHR 0x27])))],
      succeeded = 0, failed = 1, executed = 1, stoppedEarly = False,
      mach = \<lparr>world = 0, calls = []\<rparr>\<rparr>"
  by (simp add: batch_eval example_rejects_def tostring_nat.simps digit_def)

lemma example_run_two:
  "batch_loop example_tools True 1 (take 2 example_ops) (batch_init \<lparr>world = 0, calls = []\<rparr>) =
     \<lparr>results = [success 1 (Some (LBool True)),
                 failure 2 (- 32603) (Some (LStr ''Layer not found''))],
      succeeded = 1, failed = 1, executed = 2, stoppedEarly = True,
      mach = \<lparr>world = 1,
               calls = [(''document.setFrame'', LObj [(''frame'', LNum 3)]),
                        (''layer.getBones'', LObj [(''layerId'', LNum 9)])]\<rparr>\<rparr>"
  by (simp add: batch_eval)

theorem batch_summary_counters_witness:
  "field (LObj [(''operations'', LArr example_rejects)]) ''operations'' = Some (LArr example_rejects)
 \<and> \<not> truthy (field (LObj [(''operations'', LArr example_rejects)]) ''stopOnError'')
 \<and> batch_execute example_tools \<lparr>world = 0, calls = []\<rparr> (LObj [(''operations'', LArr example_rejects)]) =
     (Returns (Some (LObj [(''results'', LArr
        [failure 1 (- 32600) (Some (LStr (''Invalid operation at index 1: must have a string ''
                                          @ [CHR 0x27] @ ''method'' @ [CHR 0x27]))),
         failure 2 (- 32601) (Some (LStr ''Method not allowed in batch: document.screenshot'')),
         failure 3 (- 32601) (Some (LStr ''Method not found: nope'')),
         failure 4 (- 32602) (Some (LStr ''Missing required parameter: layerId'')),
         failure 5 (- 32601) (Some (LStr ''No handler registered for: mesh.getPoints'')),
         success 6 (Some (LBool True))]),
        (''summary'', LObj [(''total'', LNum 6), (''executed'', LNum 6),
                           (''succeeded'', LNum 1), (''failed'', LNum 5),
                           (''stoppedEarly'', LBool False)])])) None,
      \<lparr>world = 1, calls = [(''document.setFrame'', LObj [(''frame'', LNum 3)])]\<rparr>)
 \<and> \<not> stoppedEarly (batch_loop example_tools False 1 (take 1 example_rejects)
                       (batch_init \<lparr>world = 0, calls = []\<rparr>))
 \<and> rejected example_tools (example_rejects ! 1)
 \<and> executed (batch_loop example_tools False 1 (take 2 example_rejects)
              (batch_init \<lparr>world = 0, calls = []\<rparr>)) = 2
 \<and> failed (batch_loop example_tools False 1 (take 2 example_rejects)
            (batch_init \<lparr>world = 0, calls = []\<rparr>)) = 2
 \<and> succeeded (batch_loop example_tools False 1 (take 2 example_rejects)
               (batch_init \<lparr>world = 0, calls = []\<rparr>)) = 0
 \<and> mach (batch_loop example_tools False 1 (take 2 example_rejects)
          (batch_init \<lparr>world = 0, calls = []\<rparr>)) = \<lparr>world = 0, calls = []\<rparr>
 \<and> length (filter (rejected example_tools) example_rejects) = 5
 \<and> length (filter (\<lambda>op. \<not> rejected example_tools op) example_rejects) = 1
 \<and> truthy (field (LObj [(''operations'', LArr example_ops), (''stopOnError'', LBool True)]) ''stopOnError'')
 \<and> stoppedEarly (batch_loop example_tools True 1 (take 2 example_ops)
                    (batch_init \<lparr>world = 0, calls = []\<rparr>))
 \<and> executed (batch_loop example_tools True 1 (take 3 example_ops)
              (batch_init \<lparr>world = 0, calls = []\<rparr>)) = 2
 \<and> mach (batch_loop example_tools True 1 (take 3 example_ops) (batch_init \<lparr>world = 0, calls = []\<rparr>)) =
     \<lparr>world = 1, calls = [(''document.setFrame'', LObj [(''frame'', LNum 3)]),
                          (''layer.getBones'', LObj [(''layerId'', LNum 9)])]\<rparr>
 \<and> results (batch_loop example_tools True 1 example_ops (batch_init \<lparr>world = 0, calls = []\<rparr>)) ! 2
     = skipped 3"
proof -
  let ?m = "\<lparr>world = 0 :: nat, calls = []\<rparr>"
  let ?A = "LObj [(''operations'', LArr example_rejects)]"
  let ?B = "LObj [(''operations'', LArr example_ops), (''stopOnError'', LBool True)]"
  have a1: "field ?A ''operations'' = Some (LArr example_rejects)" by simp
  have a2: "example_rejects \<noteq> []" "length example_rejects \<le> 50" "length example_rejects = 6"
    "1 < length example_rejects"
    by (simp_all add: example_rejects_def)
  have a3: "False = truthy (field ?A ''stopOnError'')" by simp
  have b1: "field ?B ''operations'' = Some (LArr example_ops)" by simp
  have b2: "example_ops \<noteq> []" "length example_ops \<le> 50" "2 < length example_ops"
    by (simp_all add: example_ops_def)
  have b3: "True = truthy (field ?B ''stopOnError'')" by simp
  note A = batch_summary_counters [OF a1 a2(1,2) a3, of example_tools ?m]
  note B = batch_summary_counters [OF b1 b2(1,2) b3, of example_tools ?m]
  have r1: "rejected example_tools (example_rejects ! 1)"
    by (simp add: example_rejects_def rejected_def op_method_def disallowedInBatch_def)
  have r2: "length (filter (rejected example_tools) example_rejects) = 5"
    "length (filter (\<lambda>op. \<not> rejected example_tools op) example_rejects) = 1"
    by (simp_all add: example_rejects_def rejected_def op_method_def disallowedInBatch_def
        isAllowed_def allowedMethods_def validateParams_def paramSchemas_def params_or_empty_def
        example_tools_def)
  have s1: "\<not> stoppedEarly (batch_loop example_tools False 1 (take 1 example_rejects) (batch_init ?m))"
    unfolding example_rejects_first by simp
  have w1: "batch_execute example_tools ?m ?A =
      (Returns (Some (batch_reply (length example_rejects)
                        (batch_loop example_tools False 1 example_rejects (batch_init ?m)))) None,
       mach (batch_loop example_tools False 1 example_rejects (batch_init ?m)))"
    using A by blast
  have w2: "executed (batch_loop example_tools False 1 (take (1 + 1) example_rejects) (batch_init ?m)) =
          executed (batch_loop example_tools False 1 (take 1 example_rejects) (batch_init ?m)) + 1
      \<and> failed (batch_loop example_tools False 1 (take (1 + 1) example_rejects) (batch_init ?m)) =
          failed (batch_loop example_tools False 1 (take 1 example_rejects) (batch_init ?m)) + 1
      \<and> succeeded (batch_loop example_tools False 1 (take (1 + 1) example_rejects) (batch_init ?m)) =
          succeeded (batch_loop example_tools False 1 (take 1 example_rejects) (batch_init ?m))
      \<and> mach (batch_loop example_tools False 1 (take (1 + 1) example_rejects) (batch_init ?m)) =
          mach (batch_loop example_tools False 1 (take 1 example_rejects) (batch_init ?m))"
    using A s1 r1 a2(4) by blast
  have two: "(1 :: nat) + 1 = 2" "(2 :: nat) + 1 = 3" by simp_all
  have w3: "executed (batch_loop example_tools False 1 (take 2 example_rejects) (batch_init ?m)) = 2"
    "failed (batch_loop example_tools False 1 (take 2 example_rejects) (batch_init ?m)) = 2"
    "succeeded (batch_loop example_tools False 1 (take 2 example_rejects) (batch_init ?m)) = 0"
    "mach (batch_loop example_tools False 1 (take 2 example_rejects) (batch_init ?m)) = ?m"
    using w2 unfolding example_rejects_first two by simp_all
  have s2: "stoppedEarly (batch_loop example_tools True 1 (take 2 example_ops) (batch_init ?m))"
    unfolding example_run_two by simp
  have w4: "executed (batch_loop example_tools True 1 (take (2 + 1) example_ops) (batch_init ?m)) =
          executed (batch_loop example_tools True 1 (take 2 example_ops) (batch_init ?m))
      \<and> mach (batch_loop example_tools True 1 (take (2 + 1) example_ops) (batch_init ?m)) =
          mach (batch_loop example_tools True 1 (take 2 example_ops) (batch_init ?m))
      \<and> results (batch_loop example_tools True 1 example_ops (batch_init ?m)) ! 2 = skipped (2 + 1)"
    using B s2 b2(3) by blast
  have w5: "executed (batch_loop example_tools True 1 (take 3 example_ops) (batch_init ?m)) = 2"
    "mach (batch_loop example_tools True 1 (take 3 example_ops) (batch_init ?m)) =
       \<lparr>world = 1, calls = [(''document.setFrame'', LObj [(''frame'', LNum 3)]),
                            (''layer.getBones'', LObj [(''layerId'', LNum 9)])]\<rparr>"
    "results (batch_loop example_tools True 1 example_ops (batch_init ?m)) ! 2 = skipped 3"
    using w4 unfolding example_run_two two by simp_all
  have w6: "batch_execute example_tools ?m ?A =
     (Returns (Some (LObj [(''results'', LArr
        [failure 1 (- 32600) (Some (LStr (''Invalid operation at index 1: must have a string ''
                                          @ [CHR 0x27] @ ''method'' @ [CHR 0x27]))),
         failure 2 (- 32601) (Some (LStr ''Method not allowed in batch: document.screenshot'')),
         failure 3 (- 32601) (Some (LStr ''Method not found: nope'')),
         failure 4 (- 32602) (Some (LStr ''Missing required parameter: layerId'')),
         failure 5 (- 32601) (Some (LStr ''No handler registered for: mesh.getPoints'')),
         success 6 (Some (LBool True))]),
        (''summary'', LObj [(''total'', LNum 6), (''executed'', LNum 6),
                           (''succeeded'', LNum 1), (''failed'', LNum 5),
                           (''stoppedEarly'', LBool False)])])) None,
      \<lparr>world = 1, calls = [(''document.setFrame'', LObj [(''frame'', LNum 3)])]\<rparr>)"
    using w1 unfolding example_rejects_run by (simp add: batch_reply_def a2(3))
  have h: "field ?A ''operations'' = Some (LArr example_rejects)"
    "\<not> truthy (field ?A ''stopOnError'')" "truthy (field ?B ''stopOnError'')"
    by simp_all
  from h w6 s1 r1 w3 r2 s2 w5 show ?thesis by blast
qed

end
